theory Spec2Isabelle
  imports Main "HOL-Library.AList"
begin

section \<open>JavaScript values used by the widgets\<close>

text \<open>
  Indices in the widgets are JavaScript numbers. Every number the code computes is a
  small integer or \<open>NaN\<close> (the remainder by an empty sequence's length), so a
  number is an integer or \<open>NaN\<close>. Comparisons with \<open>NaN\<close> are false, also
  \<open>NaN === NaN\<close>.
\<close>

datatype jsnum = Num int | NaN

fun js_add :: "jsnum \<Rightarrow> jsnum \<Rightarrow> jsnum" where
  "js_add (Num a) (Num b) = Num (a + b)"
| "js_add _ _ = NaN"

fun js_sub :: "jsnum \<Rightarrow> jsnum \<Rightarrow> jsnum" where
  "js_sub (Num a) (Num b) = Num (a - b)"
| "js_sub _ _ = NaN"

text \<open>The operator \<open>%\<close>: the remainder takes the sign of the dividend, and the
  remainder by zero is \<open>NaN\<close>.\<close>

fun js_rem :: "jsnum \<Rightarrow> jsnum \<Rightarrow> jsnum" where
  "js_rem (Num a) (Num b) = (if b = 0 then NaN else Num (sgn a * (\<bar>a\<bar> mod \<bar>b\<bar>)))"
| "js_rem _ _ = NaN"

fun js_lt :: "jsnum \<Rightarrow> jsnum \<Rightarrow> bool" where
  "js_lt (Num a) (Num b) = (a < b)"
| "js_lt _ _ = False"

fun js_ge :: "jsnum \<Rightarrow> jsnum \<Rightarrow> bool" where
  "js_ge (Num a) (Num b) = (a \<ge> b)"
| "js_ge _ _ = False"

fun js_strict_eq :: "jsnum \<Rightarrow> jsnum \<Rightarrow> bool" where
  "js_strict_eq (Num a) (Num b) = (a = b)"
| "js_strict_eq _ _ = False"

text \<open>\<open>xs[i]\<close>: the element at an integer index in range, \<open>undefined\<close> (here
  \<open>None\<close>) at every other index, \<open>NaN\<close> included.\<close>

fun js_index :: "'a list \<Rightarrow> jsnum \<Rightarrow> 'a option" where
  "js_index xs (Num i) = (if 0 \<le> i \<and> i < int (length xs) then Some (xs ! nat i) else None)"
| "js_index xs NaN = None"

text \<open>Writing through a reference obtained by \<open>xs[i]\<close>: the element of the array
  at that index is the one mutated.\<close>

fun js_update :: "'a list \<Rightarrow> jsnum \<Rightarrow> 'a \<Rightarrow> 'a list" where
  "js_update xs (Num i) v = (if 0 \<le> i \<and> i < int (length xs) then xs[nat i := v] else xs)"
| "js_update xs NaN v = xs"

text \<open>Decimal rendering of numbers inside template literals.\<close>

function show_nat :: "nat \<Rightarrow> string" where
  "show_nat n = (if n < 10 then [''0123456789'' ! n]
                 else show_nat (n div 10) @ [''0123456789'' ! (n mod 10)])"
  by pat_completeness auto
termination
  by (relation "measure (\<lambda>n. n)") auto

declare show_nat.simps [simp del]

definition show_int :: "int \<Rightarrow> string" where
  "show_int i = (if i < 0 then CHR ''-'' # show_nat (nat (- i)) else show_nat (nat i))"

fun show_num :: "jsnum \<Rightarrow> string" where
  "show_num (Num i) = show_int i"
| "show_num NaN = ''NaN''"

text \<open>An exception carries the state as mutated up to the throw: assignments made
  before a \<open>TypeError\<close> stay in the object.\<close>

datatype error = TypeError

datatype 'a result = Ok 'a | Throw error 'a

fun bind_result :: "'a result \<Rightarrow> ('a \<Rightarrow> 'a result) \<Rightarrow> 'a result" where
  "bind_result (Ok s) f = f s"
| "bind_result (Throw e s) f = Throw e s"

fun iterate :: "nat \<Rightarrow> ('a \<Rightarrow> 'a result) \<Rightarrow> 'a \<Rightarrow> 'a result" where
  "iterate 0 f s = Ok s"
| "iterate (Suc n) f s = bind_result (f s) (iterate n f)"

fun state_of :: "'a result \<Rightarrow> 'a" where
  "state_of (Ok s) = s"
| "state_of (Throw e s) = s"

fun is_ok :: "'a result \<Rightarrow> bool" where
  "is_ok (Ok s) = True"
| "is_ok (Throw e s) = False"

section \<open>DOM elements\<close>

text \<open>An element: its tag, id, class list, attributes (by name, in the order they were
  first set), text content and markup.\<close>

record Element =
  tagName :: string
  elemId :: string
  classList :: "string list"
  attrs :: "(string \<times> string) list"
  textContent :: string
  innerHTML :: string

definition createElement :: "string \<Rightarrow> Element" where
  "createElement t = \<lparr>tagName = t, elemId = [], classList = [], attrs = [],
     textContent = [], innerHTML = []\<rparr>"

definition setAttribute :: "string \<Rightarrow> string \<Rightarrow> Element \<Rightarrow> Element" where
  "setAttribute k v e = e\<lparr>attrs := AList.update k v (attrs e)\<rparr>"

definition removeAttribute :: "string \<Rightarrow> Element \<Rightarrow> Element" where
  "removeAttribute k e = e\<lparr>attrs := AList.delete k (attrs e)\<rparr>"

definition getAttribute :: "string \<Rightarrow> Element \<Rightarrow> string option" where
  "getAttribute k e = map_of (attrs e) k"

definition classList_add :: "string \<Rightarrow> Element \<Rightarrow> Element" where
  "classList_add c e = (if c \<in> set (classList e) then e else e\<lparr>classList := classList e @ [c]\<rparr>)"

definition classList_remove :: "string \<Rightarrow> Element \<Rightarrow> Element" where
  "classList_remove c e = e\<lparr>classList := filter (\<lambda>x. x \<noteq> c) (classList e)\<rparr>"

definition classList_contains :: "string \<Rightarrow> Element \<Rightarrow> bool" where
  "classList_contains c e = (c \<in> set (classList e))"

section \<open>accessibility-utils.js: the announcer\<close>

text \<open>
  \<open>AccessibilityManager\<close> owns the live region \<open>announcer\<close>. \<open>setTimeout\<close> is
  modelled by a clock in milliseconds and the due times of the pending callbacks; every
  callback \<open>announce\<close> schedules does the same thing (it empties the live region), and
  none is ever cancelled. \<open>textLog\<close> is the trace of the assignments to
  \<open>announcer.textContent\<close>, oldest first.
\<close>

record AccessibilityManager =
  announcer :: Element
  reducedMotion :: bool
  clock :: nat
  timers :: "nat list"
  textLog :: "string list"

definition createLiveRegion :: Element where
  "createLiveRegion =
     (setAttribute ''aria-atomic'' ''true'' (setAttribute ''aria-live'' ''polite''
        (createElement ''div'')))\<lparr>classList := [''sr-only'']\<rparr>"

definition newAccessibilityManager :: "bool \<Rightarrow> AccessibilityManager" where
  "newAccessibilityManager rm = \<lparr>announcer = createLiveRegion, reducedMotion = rm,
     clock = 0, timers = [], textLog = []\<rparr>"

definition announce :: "string \<Rightarrow> string \<Rightarrow> AccessibilityManager \<Rightarrow> AccessibilityManager" where
  "announce message priority m =
     m\<lparr>announcer := (setAttribute ''aria-live'' priority (announcer m))\<lparr>textContent := message\<rparr>,
       timers := timers m @ [clock m + 1000],
       textLog := textLog m @ [message]\<rparr>"

text \<open>Time passes by \<open>d\<close> milliseconds: the callbacks that are due run, each one
  assigning the empty string.\<close>

definition advance :: "nat \<Rightarrow> AccessibilityManager \<Rightarrow> AccessibilityManager" where
  "advance d m =
     (let t = clock m + d;
          due = filter (\<lambda>x. x \<le> t) (timers m)
      in m\<lparr>clock := t,
           timers := filter (\<lambda>x. \<not> x \<le> t) (timers m),
           announcer := (if due = [] then announcer m else (announcer m)\<lparr>textContent := []\<rparr>),
           textLog := textLog m @ map (\<lambda>x. []) due\<rparr>)"

definition shouldReduceMotion :: "AccessibilityManager \<Rightarrow> bool" where
  "shouldReduceMotion m = reducedMotion m"

text \<open>\<open>window.a11y\<close> is absent when the utilities script is not loaded; the widgets
  test it before every announcement. The default priority is \<open>polite\<close>.\<close>

type_synonym window = "AccessibilityManager option"

definition a11y_announce :: "string \<Rightarrow> string \<Rightarrow> window \<Rightarrow> window" where
  "a11y_announce message priority w = map_option (announce message priority) w"

section \<open>accessible-infinite-scroll.js: the load-more controller\<close>

record PaginationOptions =
  itemsPerPage :: int
  loadMoreText :: string
  loadingText :: string
  noMoreText :: string
  announceNewItems :: bool
  showPageNumbers :: bool

definition defaultPaginationOptions :: PaginationOptions where
  "defaultPaginationOptions = \<lparr>itemsPerPage = 10, loadMoreText = ''Load more items'',
     loadingText = ''Loading more items...'', noMoreText = ''No more items to load'',
     announceNewItems = True, showPageNumbers = False\<rparr>"

text \<open>An item of the source: \<open>title\<close> and \<open>description\<close> may be undefined.\<close>

record ItemData =
  title :: "string option"
  description :: "string option"

text \<open>\<open>a || b\<close> on a string that may be undefined: the empty string is falsy too.\<close>

fun js_or :: "string option \<Rightarrow> string \<Rightarrow> string" where
  "js_or None d = d"
| "js_or (Some s) d = (if s = [] then d else s)"

text \<open>
  The controller. \<open>children\<close> is \<open>itemsContainer.children\<close>; \<open>ariaBusy\<close> its
  \<open>aria-busy\<close> attribute; \<open>btnDisabled\<close> and \<open>btnText\<close> are the load-more button;
  \<open>statusText\<close> is \<open>statusMessage.textContent\<close>; \<open>pageInfo\<close> is the text of the
  page-info element when there is one; \<open>activeChild\<close> is the child holding the focus,
  if one does; \<open>tabindexTimers\<close> are the children whose 100 ms timer (removing the
  temporary \<open>tabindex\<close>) is pending. \<open>fetchCalls\<close> counts the calls of
  \<open>fetchMoreItems\<close> and \<open>consoleErrors\<close> is what \<open>console.error\<close> printed.
\<close>

record AccessiblePagination =
  options :: PaginationOptions
  currentPage :: int
  totalItems :: int
  isLoading :: bool
  hasMore :: bool
  children :: "Element list"
  ariaBusy :: string
  btnDisabled :: bool
  btnText :: string
  statusText :: string
  pageInfo :: "string option"
  activeChild :: "nat option"
  tabindexTimers :: "nat list"
  fetchCalls :: nat
  consoleErrors :: "string list"

definition bullet :: string where
  "bullet = [CHR 0xE2, CHR 0x80, CHR 0xA2]"

definition updatePageInfo :: "AccessiblePagination \<Rightarrow> AccessiblePagination" where
  "updatePageInfo c =
     (case pageInfo c of
        None \<Rightarrow> c
      | Some old \<Rightarrow> c\<lparr>pageInfo := Some (''Page '' @ show_int (currentPage c) @ '' '' @ bullet
            @ '' '' @ show_int (totalItems c) @ '' items loaded'')\<rparr>)"

definition skipLink :: Element where
  "skipLink = (setAttribute ''href'' ''#pagination-end'' (createElement ''a''))
     \<lparr>classList := [''skip-to-end'', ''sr-only'', ''focus:not-sr-only'', ''focus:absolute'',
        ''focus:top-4'', ''focus:left-4'', ''bg-blue-600'', ''text-white'', ''px-4'', ''py-2'',
        ''rounded'', ''z-50''],
      textContent := ''Skip to end of list''\<rparr>"

definition endAnchor :: Element where
  "endAnchor = (setAttribute ''tabindex'' ''-1'' (createElement ''div''))\<lparr>elemId := ''pagination-end''\<rparr>"

definition controlsContainer :: Element where
  "controlsContainer =
     (setAttribute ''aria-label'' ''Pagination controls''
        (setAttribute ''role'' ''navigation'' (createElement ''div'')))
     \<lparr>classList := [''pagination-controls'', ''mt-6'', ''text-center'']\<rparr>"

text \<open>
  The constructor. \<open>paginationItems\<close> is the child list of the \<open>.pagination-items\<close>
  descendant when the container has one; otherwise the container itself holds the
  items, so the skip link, the controls and the end anchor that \<open>setupControls\<close> adds
  land among \<open>itemsContainer.children\<close>. \<open>totalItems\<close> is counted before they are
  added.
\<close>

definition newAccessiblePagination ::
  "Element list option \<Rightarrow> Element list \<Rightarrow> PaginationOptions \<Rightarrow> AccessiblePagination" where
  "newAccessiblePagination paginationItems containerChildren opts =
     (let existing = (case paginationItems of Some xs \<Rightarrow> xs | None \<Rightarrow> containerChildren);
          c0 = \<lparr>options = opts, currentPage = 1, totalItems = int (length existing),
                 isLoading = False, hasMore = True, children = existing,
                 ariaBusy = ''false'', btnDisabled = False, btnText = loadMoreText opts,
                 statusText = [],
                 pageInfo = (if showPageNumbers opts then Some [] else None),
                 activeChild = None, tabindexTimers = [], fetchCalls = 0, consoleErrors = []\<rparr>;
          c1 = updatePageInfo c0
      in (case paginationItems of
            Some xs \<Rightarrow> c1
          | None \<Rightarrow> c1\<lparr>children := skipLink # containerChildren @ [controlsContainer, endAnchor]\<rparr>))"

definition setLoading :: "bool \<Rightarrow> AccessiblePagination \<Rightarrow> AccessiblePagination" where
  "setLoading loading c =
     (if loading
      then c\<lparr>isLoading := loading, ariaBusy := ''true'', btnDisabled := True,
             btnText := loadingText (options c), statusText := ''Loading new items...''\<rparr>
      else c\<lparr>isLoading := loading, ariaBusy := ''false'', btnDisabled := False,
             btnText := (if hasMore c then loadMoreText (options c) else noMoreText (options c)),
             statusText := []\<rparr>)"

definition createItemElement :: "ItemData \<Rightarrow> int \<Rightarrow> Element" where
  \<open>createItemElement itemData index =
     (setAttribute ''aria-label'' (''Item '' @ show_int index)
        (setAttribute ''role'' ''article'' (createElement ''div'')))
     \<lparr>classList := [''pagination-item'', ''p-4'', ''border-b'', ''border-gray-200''],
      innerHTML := ''\<newline>      <h3 class="text-lg font-semibold">''
         @ js_or (title itemData) (''Item '' @ show_int index)
         @ ''</h3>\<newline>      <p class="text-gray-600 mt-2">''
         @ js_or (description itemData) (''Description for item '' @ show_int index)
         @ ''</p>\<newline>    ''\<rparr>\<close>

text \<open>\<open>items.forEach((itemData, index) => ...)\<close>: the loop over the batch, building the
  fragment; \<open>index\<close> counts from the position \<open>i\<close>.\<close>

fun buildFragment :: "int \<Rightarrow> int \<Rightarrow> ItemData list \<Rightarrow> Element list" where
  "buildFragment tot i [] = []"
| "buildFragment tot i (d # ds) = createItemElement d (tot + i + 1) # buildFragment tot (i + 1) ds"

definition addItems :: "ItemData list \<Rightarrow> AccessiblePagination \<Rightarrow> AccessiblePagination" where
  "addItems items c =
     (let fragment = buildFragment (totalItems c) 0 items;
          c1 = c\<lparr>children := children c @ fragment,
                 totalItems := totalItems c + int (length items)\<rparr>;
          c2 = (if showPageNumbers (options c1) then updatePageInfo c1 else c1);
          k = Num (totalItems c2 - int (length items))
      in (case js_index (children c2) k of
            None \<Rightarrow> c2
          | Some firstNewItem \<Rightarrow>
              c2\<lparr>children := js_update (children c2) k (setAttribute ''tabindex'' ''-1'' firstNewItem),
                 activeChild := Some (nat (totalItems c2 - int (length items))),
                 tabindexTimers := tabindexTimers c2 @ [nat (totalItems c2 - int (length items))]\<rparr>))"

text \<open>The 100 ms timers of \<open>addItems\<close> fire: each removes the temporary \<open>tabindex\<close>.\<close>

definition fireTabindexTimers :: "AccessiblePagination \<Rightarrow> AccessiblePagination" where
  "fireTabindexTimers c =
     c\<lparr>children := foldl (\<lambda>cs k. if k < length cs then cs[k := removeAttribute ''tabindex'' (cs ! k)] else cs)
                       (children c) (tabindexTimers c),
       tabindexTimers := []\<rparr>"

text \<open>
  The reference item source \<open>fetchMoreItems\<close>: after its delay it reads \<open>totalItems\<close>
  and produces \<open>min(itemsPerPage, 50 - totalItems)\<close> items; the \<open>for\<close> loop runs
  while \<open>i < itemsToLoad\<close>, so a bound of zero or less gives the empty list.
\<close>

function fetchLoop :: "int \<Rightarrow> int \<Rightarrow> int \<Rightarrow> ItemData list \<Rightarrow> ItemData list" where
  "fetchLoop i itemsToLoad tot items =
     (if i < itemsToLoad
      then fetchLoop (i + 1) itemsToLoad tot
             (items @ [\<lparr>title = Some (''Item '' @ show_int (tot + i + 1)),
                         description = Some (''This is the description for item ''
                                             @ show_int (tot + i + 1))\<rparr>])
      else items)"
  by pat_completeness auto
termination
  by (relation "measure (\<lambda>(i, itemsToLoad, tot, items). nat (itemsToLoad - i))") auto

declare fetchLoop.simps [simp del]

definition fetchMoreItems :: "AccessiblePagination \<Rightarrow> ItemData list" where
  "fetchMoreItems c =
     (let itemsToLoad = min (itemsPerPage (options c)) (50 - totalItems c)
      in fetchLoop 0 itemsToLoad (totalItems c) [])"

text \<open>
  \<open>loadMore\<close> is asynchronous. Up to the \<open>await\<close> it runs at once: it returns
  (\<open>Returned\<close>) when the guard holds, and otherwise sets the loading state, calls the
  item source and suspends (\<open>Awaiting\<close>). It resumes when the promise of the item
  source settles: fulfilled with a batch (\<open>null\<close> or \<open>undefined\<close> is \<open>None\<close>) or
  rejected with an error.
\<close>

datatype 'a suspended = Returned 'a | Awaiting 'a

datatype FetchResult = Fulfilled "ItemData list option" | Rejected string

definition loadMore_begin :: "AccessiblePagination \<Rightarrow> AccessiblePagination suspended" where
  "loadMore_begin c =
     (if isLoading c \<or> \<not> hasMore c then Returned c
      else Awaiting ((setLoading True c)\<lparr>fetchCalls := fetchCalls c + 1\<rparr>))"

definition truthy_nonempty :: "ItemData list option \<Rightarrow> bool" where
  "truthy_nonempty newItems = (case newItems of None \<Rightarrow> False | Some xs \<Rightarrow> length xs > 0)"

definition loadMore_try :: "ItemData list option \<Rightarrow> AccessiblePagination \<times> window
    \<Rightarrow> AccessiblePagination \<times> window" where
  "loadMore_try newItems s =
     (case s of (c, w) \<Rightarrow>
        if truthy_nonempty newItems
        then (let c1 = addItems (the newItems) c;
                  c2 = c1\<lparr>currentPage := currentPage c1 + 1\<rparr>
              in if announceNewItems (options c2) \<and> w \<noteq> None
                 then (c2, a11y_announce (''Loaded '' @ show_nat (length (the newItems))
                             @ '' more items. Total items: '' @ show_int (totalItems c2)) ''polite'' w)
                 else (c2, w))
        else (c\<lparr>hasMore := False, btnDisabled := True, btnText := noMoreText (options c),
                 statusText := ''All items have been loaded.''\<rparr>, w))"

definition loadMore_catch :: "string \<Rightarrow> AccessiblePagination \<times> window
    \<Rightarrow> AccessiblePagination \<times> window" where
  "loadMore_catch err s =
     (case s of (c, w) \<Rightarrow>
        (c\<lparr>consoleErrors := consoleErrors c @ [''Error loading more items: '' @ err],
           statusText := ''Error loading items. Please try again.''\<rparr>,
         if w \<noteq> None then a11y_announce ''Error loading more items'' ''assertive'' w else w))"

definition loadMore_finally :: "AccessiblePagination \<times> window \<Rightarrow> AccessiblePagination \<times> window" where
  "loadMore_finally s = (case s of (c, w) \<Rightarrow> (setLoading False c, w))"

definition loadMore_resume :: "FetchResult \<Rightarrow> AccessiblePagination \<times> window
    \<Rightarrow> AccessiblePagination \<times> window" where
  "loadMore_resume r s =
     loadMore_finally (case r of
        Fulfilled newItems \<Rightarrow> loadMore_try newItems s
      | Rejected err \<Rightarrow> loadMore_catch err s)"

text \<open>
  One whole call of \<open>loadMore\<close> with nothing interleaved: \<open>source\<close> is the item source
  (the overridable \<open>fetchMoreItems\<close>), which sees the controller as it is while loading.
\<close>

definition loadMore :: "(AccessiblePagination \<Rightarrow> FetchResult) \<Rightarrow> AccessiblePagination \<times> window
    \<Rightarrow> AccessiblePagination \<times> window" where
  "loadMore source s =
     (case s of (c, w) \<Rightarrow>
        (case loadMore_begin c of
           Returned c' \<Rightarrow> (c', w)
         | Awaiting c' \<Rightarrow> loadMore_resume (source c') (c', w)))"

definition referenceSource :: "AccessiblePagination \<Rightarrow> FetchResult" where
  "referenceSource c = Fulfilled (Some (fetchMoreItems c))"

fun loadMoreTimes :: "nat \<Rightarrow> (AccessiblePagination \<Rightarrow> FetchResult) \<Rightarrow> AccessiblePagination \<times> window
    \<Rightarrow> AccessiblePagination \<times> window" where
  "loadMoreTimes 0 source s = s"
| "loadMoreTimes (Suc n) source s = loadMoreTimes n source (loadMore source s)"

text \<open>
  The controller as an event machine: a call of \<open>loadMore\<close> (a click on the button or
  Ctrl+PageDown), or the pending promise settling. A promise is pending exactly while
  \<open>isLoading\<close> is set, so nothing settles in another state.
\<close>

datatype event = CallLoadMore | Settles FetchResult

fun step :: "event \<Rightarrow> AccessiblePagination \<times> window \<Rightarrow> AccessiblePagination \<times> window" where
  "step CallLoadMore (c, w) =
     (case loadMore_begin c of Returned c' \<Rightarrow> (c', w) | Awaiting c' \<Rightarrow> (c', w))"
| "step (Settles r) (c, w) = (if isLoading c then loadMore_resume r (c, w) else (c, w))"

fun run :: "event list \<Rightarrow> AccessiblePagination \<times> window \<Rightarrow> AccessiblePagination \<times> window" where
  "run [] s = s"
| "run (e # es) s = run es (step e s)"

section \<open>accessible-carousel.js\<close>

text \<open>
  The carousel: \<open>slides\<close> are the \<open>.carousel-slide\<close> elements of the container and
  \<open>dots\<close> the \<open>.carousel-dot\<close> elements, which are the buttons \<open>setupControls\<close>
  creates (the container's markup is taken to hold none of its own). Autoplay
  (\<open>play\<close>, \<open>pause\<close>) only toggles a timer that calls \<open>nextSlide\<close> and is left out.
\<close>

record CarouselOptions =
  autoPlay :: bool
  pauseOnHover :: bool
  pauseOnFocus :: bool
  showDots :: bool
  showArrows :: bool
  announceSlides :: bool

definition defaultCarouselOptions :: CarouselOptions where
  "defaultCarouselOptions = \<lparr>autoPlay = False, pauseOnHover = True, pauseOnFocus = True,
     showDots = True, showArrows = True, announceSlides = True\<rparr>"

record AccessibleCarousel =
  carouselOptions :: CarouselOptions
  currentSlide :: jsnum
  slides :: "Element list"
  dots :: "Element list"

definition setupSlide :: "nat \<Rightarrow> nat \<Rightarrow> Element \<Rightarrow> Element" where
  "setupSlide n index slide =
     (let s1 = setAttribute ''tabindex'' (if index = 0 then ''0'' else ''-1'')
                 (setAttribute ''aria-label''
                    (''Slide '' @ show_nat (index + 1) @ '' of '' @ show_nat n)
                    (setAttribute ''aria-roledescription'' ''slide''
                       (setAttribute ''role'' ''group'' slide)))
      in if index \<noteq> 0 then classList_add ''hidden'' s1 else s1)"

text \<open>\<open>this.slides.forEach((slide, index) => ...)\<close>, from position \<open>index\<close> on.\<close>

fun setupSlides :: "nat \<Rightarrow> nat \<Rightarrow> Element list \<Rightarrow> Element list" where
  "setupSlides n index [] = []"
| "setupSlides n index (slide # rest) = setupSlide n index slide # setupSlides n (index + 1) rest"

definition createDot :: "nat \<Rightarrow> Element" where
  "createDot index =
     (setAttribute ''aria-selected'' (if index = 0 then ''true'' else ''false'')
        (setAttribute ''aria-label'' (''Go to slide '' @ show_nat (index + 1))
           (setAttribute ''role'' ''tab'' (createElement ''button''))))
     \<lparr>classList := [''carousel-dot'', ''w-3'', ''h-3'', ''rounded-full'', ''border-2'',
        ''focus:outline-none'', ''focus:ring-2'', ''focus:ring-blue-500'']
        @ (if index = 0 then [''bg-blue-600'', ''border-blue-600'']
           else [''bg-gray-300'', ''border-gray-300''])\<rparr>"

fun createDots :: "nat \<Rightarrow> 'a list \<Rightarrow> Element list" where
  "createDots index [] = []"
| "createDots index (slide # rest) = createDot index # createDots (index + 1) rest"

text \<open>
  The constructor, over the \<open>.carousel-slide\<close> elements found. With no slide
  \<open>setupStructure\<close> returns early, and \<open>init\<close> goes on to the controls and the
  keyboard handler all the same.
\<close>

definition newAccessibleCarousel :: "Element list \<Rightarrow> CarouselOptions \<Rightarrow> window \<Rightarrow> AccessibleCarousel" where
  "newAccessibleCarousel found opts w =
     \<lparr>carouselOptions =
        (if (case w of None \<Rightarrow> False | Some m \<Rightarrow> shouldReduceMotion m)
         then opts\<lparr>autoPlay := False\<rparr> else opts),
      currentSlide = Num 0,
      slides = (if length found = 0 then found else setupSlides (length found) 0 found),
      dots = (if showDots opts \<and> length found > 1 then createDots 0 found else [])\<rparr>"

definition hidePrevious :: "jsnum \<Rightarrow> AccessibleCarousel \<Rightarrow> AccessibleCarousel result" where
  "hidePrevious previousSlide c =
     (case js_index (slides c) previousSlide of
        None \<Rightarrow> Throw TypeError c
      | Some p \<Rightarrow> Ok (c\<lparr>slides := js_update (slides c) previousSlide
                          (setAttribute ''tabindex'' ''-1'' (classList_add ''hidden'' p))\<rparr>))"

definition showCurrent :: "AccessibleCarousel \<Rightarrow> AccessibleCarousel result" where
  "showCurrent c =
     (case js_index (slides c) (currentSlide c) of
        None \<Rightarrow> Throw TypeError c
      | Some q \<Rightarrow> Ok (c\<lparr>slides := js_update (slides c) (currentSlide c)
                          (setAttribute ''tabindex'' ''0'' (classList_remove ''hidden'' q))\<rparr>))"

definition deselectDot :: "jsnum \<Rightarrow> AccessibleCarousel \<Rightarrow> AccessibleCarousel result" where
  "deselectDot previousSlide c =
     (case js_index (dots c) previousSlide of
        None \<Rightarrow> Throw TypeError c
      | Some d \<Rightarrow> Ok (c\<lparr>dots := js_update (dots c) previousSlide
                          (setAttribute ''aria-selected'' ''false''
                             (classList_add ''border-gray-300'' (classList_add ''bg-gray-300''
                                (classList_remove ''border-blue-600''
                                   (classList_remove ''bg-blue-600'' d)))))\<rparr>))"

definition selectDot :: "AccessibleCarousel \<Rightarrow> AccessibleCarousel result" where
  "selectDot c =
     (case js_index (dots c) (currentSlide c) of
        None \<Rightarrow> Throw TypeError c
      | Some d \<Rightarrow> Ok (c\<lparr>dots := js_update (dots c) (currentSlide c)
                          (setAttribute ''aria-selected'' ''true''
                             (classList_add ''border-blue-600'' (classList_add ''bg-blue-600''
                                (classList_remove ''border-gray-300''
                                   (classList_remove ''bg-gray-300'' d)))))\<rparr>))"

definition updateDots :: "jsnum \<Rightarrow> AccessibleCarousel \<Rightarrow> AccessibleCarousel result" where
  "updateDots previousSlide c =
     (if length (dots c) > 0 then bind_result (deselectDot previousSlide c) selectDot else Ok c)"

definition announceSlide :: "AccessibleCarousel \<Rightarrow> window \<Rightarrow> window" where
  "announceSlide c w =
     (if announceSlides (carouselOptions c) \<and> w \<noteq> None
      then a11y_announce (''Slide '' @ show_num (js_add (currentSlide c) (Num 1)) @ '' of ''
                          @ show_nat (length (slides c))) ''polite'' w
      else w)"

definition goToSlide :: "jsnum \<Rightarrow> AccessibleCarousel \<times> window \<Rightarrow> (AccessibleCarousel \<times> window) result" where
  "goToSlide index s =
     (case s of (c, w) \<Rightarrow>
        if js_lt index (Num 0) \<or> js_ge index (Num (int (length (slides c))))
           \<or> js_strict_eq index (currentSlide c)
        then Ok (c, w)
        else (let previousSlide = currentSlide c;
                  c1 = c\<lparr>currentSlide := index\<rparr>
              in case bind_result (bind_result (hidePrevious previousSlide c1) showCurrent)
                        (updateDots previousSlide) of
                   Throw e c2 \<Rightarrow> Throw e (c2, w)
                 | Ok c2 \<Rightarrow> Ok (c2, announceSlide c2 w)))"

definition nextSlide :: "AccessibleCarousel \<times> window \<Rightarrow> (AccessibleCarousel \<times> window) result" where
  "nextSlide s =
     (let nextIndex = js_rem (js_add (currentSlide (fst s)) (Num 1)) (Num (int (length (slides (fst s)))))
      in goToSlide nextIndex s)"

definition previousSlide :: "AccessibleCarousel \<times> window \<Rightarrow> (AccessibleCarousel \<times> window) result" where
  "previousSlide s =
     (let prevIndex = js_rem (js_add (js_sub (currentSlide (fst s)) (Num 1))
                                 (Num (int (length (slides (fst s))))))
                             (Num (int (length (slides (fst s)))))
      in goToSlide prevIndex s)"

text \<open>The keyboard handler of the container. \<open>target\<close> is the index of the dot the
  event comes from, when it comes from a dot: Space and Enter click that dot, whose
  click listener calls \<open>goToSlide\<close> with its index. Every other key is ignored.\<close>

definition carouselKeydown :: "string \<Rightarrow> nat option \<Rightarrow> AccessibleCarousel \<times> window
    \<Rightarrow> (AccessibleCarousel \<times> window) result" where
  "carouselKeydown key target s =
     (if key = ''ArrowLeft'' then previousSlide s
      else if key = ''ArrowRight'' then nextSlide s
      else if key = ''Home'' then goToSlide (Num 0) s
      else if key = ''End'' then goToSlide (Num (int (length (slides (fst s))) - 1)) s
      else if key = '' '' \<or> key = ''Enter''
        then (case target of None \<Rightarrow> Ok s | Some index \<Rightarrow> goToSlide (Num (int index)) s)
      else Ok s)"

section \<open>accessible-dropdown.js\<close>

text \<open>
  The dropdown: \<open>menu\<close> is \<open>null\<close> (here \<open>None\<close>) until \<open>setupStructure\<close> finds
  the menu element; \<open>menuAppended\<close> are the children the widget appends to the menu;
  \<open>listenersAttached\<close> records that \<open>setupEventListeners\<close> ran; \<open>activeElement\<close> is
  where the widget last put the focus. Selecting an item (\<open>selectItem\<close>) dispatches
  a click on the item and is left out, and with it the menu's keyboard handler, which
  only dispatches to the operations below and to the selection.
\<close>

record DropdownOptions =
  closeOnClickOutside :: bool
  closeOnEscape :: bool
  announceStateChanges :: bool

definition defaultDropdownOptions :: DropdownOptions where
  "defaultDropdownOptions = \<lparr>closeOnClickOutside = True, closeOnEscape = True,
     announceStateChanges = True\<rparr>"

datatype focus = Elsewhere | OnTrigger | OnItem jsnum

record AccessibleDropdown =
  dropdownOptions :: DropdownOptions
  trigger :: Element
  menu :: "Element option"
  menuItems :: "Element list"
  menuAppended :: "Element list"
  isOpen :: bool
  currentIndex :: jsnum
  listenersAttached :: bool
  activeElement :: focus

text \<open>A string that may be \<open>null\<close> is truthy when it is there and not empty.\<close>

fun truthy :: "string option \<Rightarrow> bool" where
  "truthy None = False"
| "truthy (Some s) = (s \<noteq> [])"

definition setupMenuItem :: "Element \<Rightarrow> Element" where
  "setupMenuItem item =
     setAttribute ''tabindex'' ''-1''
       (if \<not> truthy (getAttribute ''role'' item) then setAttribute ''role'' ''menuitem'' item else item)"

text \<open>
  \<open>setupStructure\<close>: \<open>getElementById\<close> is the document's lookup,
  \<open>nextElementSibling\<close> the trigger's next sibling, \<open>found\<close> the elements of the menu
  matching \<open>[role="menuitem"], a, button\<close>, and \<open>rnd\<close> the random suffix of a
  generated id. Without a menu element it returns before anything is set up.
\<close>

definition setupStructure :: "(string \<Rightarrow> Element option) \<Rightarrow> Element option \<Rightarrow> Element list \<Rightarrow> string
    \<Rightarrow> AccessibleDropdown \<Rightarrow> AccessibleDropdown" where
  "setupStructure getElementById nextElementSibling found rnd d =
     (let menuId = (if truthy (getAttribute ''aria-controls'' (trigger d))
                    then getAttribute ''aria-controls'' (trigger d)
                    else getAttribute ''data-dropdown-target'' (trigger d));
          d1 = d\<lparr>menu := (if truthy menuId then getElementById (the menuId) else nextElementSibling)\<rparr>
      in case menu d1 of
           None \<Rightarrow> d1
         | Some m \<Rightarrow>
             (let m1 = (if elemId m = [] then m\<lparr>elemId := ''dropdown-menu-'' @ rnd\<rparr> else m);
                  t1 = setAttribute ''aria-controls'' (elemId m1)
                         (setAttribute ''aria-expanded'' ''false''
                            (setAttribute ''aria-haspopup'' ''true'' (trigger d1)));
                  m2 = classList_add ''hidden''
                         (setAttribute ''aria-labelledby'' (elemId (trigger d1))
                            (setAttribute ''role'' ''menu'' m1))
              in d1\<lparr>menuItems := map setupMenuItem found, trigger := t1, menu := Some m2\<rparr>))"

definition setupEventListeners :: "AccessibleDropdown \<Rightarrow> AccessibleDropdown" where
  "setupEventListeners d = d\<lparr>listenersAttached := True\<rparr>"

definition instructions :: Element where
  "instructions = (createElement ''div'')\<lparr>classList := [''sr-only''],
     textContent := ''Use arrow keys to navigate menu items, Enter to select, Escape to close''\<rparr>"

text \<open>\<open>setupAccessibility\<close> calls \<open>this.menu.appendChild\<close> with no test of
  \<open>this.menu\<close>.\<close>

definition setupAccessibility :: "AccessibleDropdown \<Rightarrow> AccessibleDropdown result" where
  "setupAccessibility d =
     (case menu d of
        None \<Rightarrow> Throw TypeError d
      | Some m \<Rightarrow> Ok (d\<lparr>menuAppended := menuAppended d @ [instructions]\<rparr>))"

definition newAccessibleDropdown :: "Element \<Rightarrow> (string \<Rightarrow> Element option) \<Rightarrow> Element option
    \<Rightarrow> Element list \<Rightarrow> string \<Rightarrow> DropdownOptions \<Rightarrow> AccessibleDropdown result" where
  "newAccessibleDropdown trig getElementById nextElementSibling found rnd opts =
     setupAccessibility (setupEventListeners
       (setupStructure getElementById nextElementSibling found rnd
          \<lparr>dropdownOptions = opts, trigger = trig, menu = None, menuItems = [],
           menuAppended = [], isOpen = False, currentIndex = Num (- 1),
           listenersAttached = False, activeElement = Elsewhere\<rparr>))"

definition blurCurrent :: "AccessibleDropdown \<Rightarrow> AccessibleDropdown result" where
  "blurCurrent d =
     (if js_ge (currentIndex d) (Num 0)
      then (case js_index (menuItems d) (currentIndex d) of
              None \<Rightarrow> Throw TypeError d
            | Some item \<Rightarrow> Ok (d\<lparr>menuItems := js_update (menuItems d) (currentIndex d)
                                   (setAttribute ''tabindex'' ''-1'' item)\<rparr>))
      else Ok d)"

definition focusNew :: "jsnum \<Rightarrow> AccessibleDropdown \<Rightarrow> AccessibleDropdown result" where
  "focusNew index d =
     (let d1 = d\<lparr>currentIndex := index\<rparr>
      in case js_index (menuItems d1) (currentIndex d1) of
           None \<Rightarrow> Throw TypeError d1
         | Some item \<Rightarrow> Ok (d1\<lparr>menuItems := js_update (menuItems d1) (currentIndex d1)
                                  (setAttribute ''tabindex'' ''0'' item),
                                activeElement := OnItem (currentIndex d1)\<rparr>))"

definition focusItem :: "jsnum \<Rightarrow> AccessibleDropdown \<Rightarrow> AccessibleDropdown result" where
  "focusItem index d =
     (if js_lt index (Num 0) \<or> js_ge index (Num (int (length (menuItems d)))) then Ok d
      else bind_result (blurCurrent d) (focusNew index))"

definition focusFirstItem :: "AccessibleDropdown \<Rightarrow> AccessibleDropdown result" where
  "focusFirstItem d = focusItem (Num 0) d"

definition focusLastItem :: "AccessibleDropdown \<Rightarrow> AccessibleDropdown result" where
  "focusLastItem d = focusItem (Num (int (length (menuItems d)) - 1)) d"

definition focusNextItem :: "AccessibleDropdown \<Rightarrow> AccessibleDropdown result" where
  "focusNextItem d =
     (let nextIndex = js_rem (js_add (currentIndex d) (Num 1)) (Num (int (length (menuItems d))))
      in focusItem nextIndex d)"

definition focusPreviousItem :: "AccessibleDropdown \<Rightarrow> AccessibleDropdown result" where
  "focusPreviousItem d =
     (let prevIndex = js_rem (js_add (js_sub (currentIndex d) (Num 1))
                                 (Num (int (length (menuItems d)))))
                             (Num (int (length (menuItems d))))
      in focusItem prevIndex d)"

text \<open>Operations that announce act on the dropdown and the window together.\<close>

fun with_window :: "window \<Rightarrow> AccessibleDropdown result \<Rightarrow> (AccessibleDropdown \<times> window) result" where
  "with_window w (Ok d) = Ok (d, w)"
| "with_window w (Throw e d) = Throw e (d, w)"

definition announceState :: "string \<Rightarrow> AccessibleDropdown \<Rightarrow> window \<Rightarrow> window" where
  "announceState message d w =
     (if announceStateChanges (dropdownOptions d) \<and> w \<noteq> None
      then a11y_announce message ''polite'' w else w)"

definition dropdown_open :: "AccessibleDropdown \<times> window \<Rightarrow> (AccessibleDropdown \<times> window) result" where
  "dropdown_open s =
     (case s of (d, w) \<Rightarrow>
        if isOpen d then Ok (d, w)
        else (let d1 = d\<lparr>isOpen := True\<rparr>
              in case menu d1 of
                   None \<Rightarrow> Throw TypeError (d1, w)
                 | Some m \<Rightarrow>
                     (let d2 = d1\<lparr>menu := Some (classList_remove ''hidden'' m),
                                   trigger := setAttribute ''aria-expanded'' ''true'' (trigger d1)\<rparr>
                      in with_window (announceState ''Menu opened'' d2 w) (focusFirstItem d2))))"

definition dropdown_close :: "AccessibleDropdown \<times> window \<Rightarrow> (AccessibleDropdown \<times> window) result" where
  "dropdown_close s =
     (case s of (d, w) \<Rightarrow>
        if \<not> isOpen d then Ok (d, w)
        else (let d1 = d\<lparr>isOpen := False\<rparr>
              in case menu d1 of
                   None \<Rightarrow> Throw TypeError (d1, w)
                 | Some m \<Rightarrow>
                     (let d2 = d1\<lparr>menu := Some (classList_add ''hidden'' m),
                                   trigger := setAttribute ''aria-expanded'' ''false'' (trigger d1),
                                   currentIndex := Num (- 1)\<rparr>
                      in Ok (d2, announceState ''Menu closed'' d2 w))))"

definition toggle :: "AccessibleDropdown \<times> window \<Rightarrow> (AccessibleDropdown \<times> window) result" where
  "toggle s = (if isOpen (fst s) then dropdown_close s else dropdown_open s)"

section \<open>Roving tab stops\<close>

text \<open>The number of elements of a sequence that carry the active tab stop,
  \<open>tabindex="0"\<close>.\<close>

definition tabStops :: "Element list \<Rightarrow> nat" where
  "tabStops es = length (filter (\<lambda>e. getAttribute ''tabindex'' e = Some ''0'') es)"

text \<open>For each element of a sequence, whether it carries the active tab stop.\<close>

definition stops :: "Element list \<Rightarrow> bool list" where
  "stops es = map (\<lambda>e. getAttribute ''tabindex'' e = Some ''0'') es"

text \<open>The element at index \<open>idx\<close>, an index of the sequence, carries the active tab
  stop and no other element does.\<close>

definition rovingAt :: "Element list \<Rightarrow> jsnum \<Rightarrow> bool" where
  "rovingAt es idx =
     (case idx of
        NaN \<Rightarrow> False
      | Num k \<Rightarrow> 0 \<le> k \<and> k < int (length es)
                 \<and> stops es = (replicate (length es) False)[nat k := True])"

text \<open>The dots of a carousel are none, or one for each slide, as \<open>setupControls\<close>
  leaves them.\<close>

definition dotsMatchSlides :: "AccessibleCarousel \<Rightarrow> bool" where
  "dotsMatchSlides c = (length (dots c) = 0 \<or> length (dots c) = length (slides c))"

text \<open>The tab stops of a dropdown agree with \<open>currentIndex\<close>: none while it is
  \<open>-1\<close>, and otherwise the item at \<open>currentIndex\<close> alone.\<close>

definition tabStopsAgree :: "AccessibleDropdown \<Rightarrow> bool" where
  "tabStopsAgree d =
     (if currentIndex d = Num (- 1) then tabStops (menuItems d) = 0
      else rovingAt (menuItems d) (currentIndex d))"

section \<open>Example configurations\<close>

text \<open>A container whose \<open>.pagination-items\<close> element holds three items, with the
  default options, and a window where the accessibility utilities are loaded.\<close>

definition threeItems :: "Element list" where
  "threeItems = [createElement ''div'', createElement ''div'', createElement ''div'']"

definition exampleController :: AccessiblePagination where
  "exampleController = newAccessiblePagination (Some threeItems) [] defaultPaginationOptions"

definition exampleWindow :: window where
  "exampleWindow = Some (newAccessibilityManager False)"

text \<open>A carousel over three slides and one over none; a dropdown whose trigger is
  followed by a menu with three items, and one whose trigger names no menu and has no
  next sibling.\<close>

definition threeSlides :: "Element list" where
  "threeSlides = [createElement ''div'', createElement ''div'', createElement ''div'']"

definition exampleCarousel :: AccessibleCarousel where
  "exampleCarousel = newAccessibleCarousel threeSlides defaultCarouselOptions exampleWindow"

definition emptyCarousel :: AccessibleCarousel where
  "emptyCarousel = newAccessibleCarousel [] defaultCarouselOptions exampleWindow"

definition exampleDropdown :: "AccessibleDropdown result" where
  "exampleDropdown =
     newAccessibleDropdown (createElement ''button'') (\<lambda>menuId. None) (Some (createElement ''ul''))
       [createElement ''a'', createElement ''a'', createElement ''button''] ''k3x9q2m1z''
       defaultDropdownOptions"

definition orphanDropdown :: "AccessibleDropdown result" where
  "orphanDropdown =
     newAccessibleDropdown (createElement ''button'') (\<lambda>menuId. None) None [] ''k3x9q2m1z''
       defaultDropdownOptions"

text \<open>The batch the reference source returns to a call of \<open>loadMore\<close> made in state
  \<open>c\<close>; there is none when the guard returns first.\<close>

definition referenceResponse :: "AccessiblePagination \<Rightarrow> ItemData list option" where
  "referenceResponse c =
     (case loadMore_begin c of Returned c' \<Rightarrow> None | Awaiting c' \<Rightarrow> Some (fetchMoreItems c'))"

section \<open>The load-more controller: guard and exhaustion\<close>

lemma run_calls_guarded:
  "isLoading c \<or> \<not> hasMore c \<Longrightarrow> run (replicate n CallLoadMore) (c, w) = (c, w)"
  by (induction n) (simp_all add: loadMore_begin_def)

lemma step_exhausted: "\<not> hasMore c \<Longrightarrow> \<not> isLoading c \<Longrightarrow> step e (c, w) = (c, w)"
  by (cases e) (simp_all add: loadMore_begin_def)

lemma run_exhausted: "\<not> hasMore c \<Longrightarrow> \<not> isLoading c \<Longrightarrow> run es (c, w) = (c, w)"
proof (induction es)
  case Nil
  show ?case by simp
next
  case (Cons e es)
  then show ?case using step_exhausted [of c e w] by simp
qed

lemma resume_empty_flags:
  assumes "\<not> truthy_nonempty newItems"
  shows "\<not> hasMore (fst (loadMore_resume (Fulfilled newItems) (c, w)))"
    and "\<not> isLoading (fst (loadMore_resume (Fulfilled newItems) (c, w)))"
  using assms
  by (simp_all add: loadMore_resume_def loadMore_try_def loadMore_finally_def setLoading_def)

text \<open>
  C1. In every controller state with \<open>isLoading\<close> set or \<open>hasMore\<close> cleared, a call of
  \<open>loadMore\<close> returns at the guard with the controller exactly as it was: no field
  changes, \<open>fetchCalls\<close> included, so no fetch is issued. The same holds for a whole
  call with any item source, and for any number of calls in a row.
\<close>

theorem loadMore_guarded_noop:
  assumes "isLoading c \<or> \<not> hasMore c"
  shows "loadMore_begin c = Returned c
       \<and> loadMore source (c, w) = (c, w)
       \<and> run (replicate n CallLoadMore) (c, w) = (c, w)"
  using assms run_calls_guarded [of c n w]
  by (simp add: loadMore_begin_def loadMore_def)

theorem loadMore_guarded_noop_witness:
  "loadMore_begin (setLoading True exampleController) = Returned (setLoading True exampleController)
   \<and> loadMore referenceSource (setLoading True exampleController, exampleWindow)
       = (setLoading True exampleController, exampleWindow)
   \<and> run (replicate 3 CallLoadMore) (setLoading True exampleController, exampleWindow)
       = (setLoading True exampleController, exampleWindow)"
proof -
  have h: "isLoading (setLoading True exampleController) \<or> \<not> hasMore (setLoading True exampleController)"
    by (simp add: setLoading_def)
  show ?thesis
    using loadMore_guarded_noop [OF h] by blast
qed

text \<open>
  C2. When the promise of the item source is fulfilled with no items (an empty batch,
  or no batch at all), the controller clears \<open>hasMore\<close> and leaves the loading state.
  From then on every sequence of events, calls of \<open>loadMore\<close> and settling promises
  alike, leaves the state as it is: \<open>hasMore\<close> stays cleared and each call of
  \<open>loadMore\<close> returns at the guard.
\<close>

theorem exhaustion_is_terminal:
  assumes "\<not> truthy_nonempty newItems"
    and "s1 = loadMore_resume (Fulfilled newItems) (c, w)"
  shows "\<not> hasMore (fst s1) \<and> \<not> isLoading (fst s1)
       \<and> run es s1 = s1
       \<and> \<not> hasMore (fst (run es s1))
       \<and> loadMore_begin (fst (run es s1)) = Returned (fst (run es s1))
       \<and> loadMore source (run es s1) = run es s1"
proof -
  obtain c1 w1 where s1: "s1 = (c1, w1)" by (cases s1)
  have flags: "\<not> hasMore c1" "\<not> isLoading c1"
    using resume_empty_flags [OF assms(1), of c w] assms(2) s1 by (metis fst_conv)+
  have frozen: "run es s1 = s1"
    using run_exhausted [OF flags] s1 by simp
  show ?thesis
    using flags frozen s1 by (simp add: loadMore_begin_def loadMore_def)
qed

theorem exhaustion_is_terminal_witness:
  "\<not> hasMore (fst (loadMore_resume (Fulfilled (Some [])) (setLoading True exampleController, exampleWindow)))
   \<and> run [CallLoadMore, Settles (Fulfilled (Some [\<lparr>title = None, description = None\<rparr>])), CallLoadMore]
        (loadMore_resume (Fulfilled (Some [])) (setLoading True exampleController, exampleWindow))
      = loadMore_resume (Fulfilled (Some [])) (setLoading True exampleController, exampleWindow)"
proof -
  have h: "\<not> truthy_nonempty (Some [])" by (simp add: truthy_nonempty_def)
  show ?thesis
    using exhaustion_is_terminal [OF h refl] by blast
qed

section \<open>The load-more controller: a rejected fetch\<close>

lemma exampleController_eq:
  "exampleController = \<lparr>options = defaultPaginationOptions, currentPage = 1, totalItems = 3,
     isLoading = False, hasMore = True, children = threeItems, ariaBusy = ''false'',
     btnDisabled = False, btnText = ''Load more items'', statusText = [], pageInfo = None,
     activeChild = None, tabindexTimers = [], fetchCalls = 0, consoleErrors = []\<rparr>"
  by (simp add: exampleController_def newAccessiblePagination_def threeItems_def
      defaultPaginationOptions_def updatePageInfo_def Let_def)

lemma catch_writes_status:
  "statusText (fst (loadMore_catch err (c, w))) = ''Error loading items. Please try again.''"
  by (simp add: loadMore_catch_def)

lemma resume_rejected:
  "loadMore_resume (Rejected err) (c, w) =
     (setLoading False (c\<lparr>consoleErrors := consoleErrors c @ [''Error loading more items: '' @ err],
                          statusText := ''Error loading items. Please try again.''\<rparr>),
      if w \<noteq> None then a11y_announce ''Error loading more items'' ''assertive'' w else w)"
  by (simp add: loadMore_resume_def loadMore_catch_def loadMore_finally_def)

text \<open>In every state, a rejected fetch leaves the page number, the item count, the
  rendered children and \<open>hasMore\<close> as they were, clears \<open>isLoading\<close>, and ends with an
  empty status text.\<close>

lemma resume_rejected_fields:
  "currentPage (fst (loadMore_resume (Rejected err) (c, w))) = currentPage c"
  "totalItems (fst (loadMore_resume (Rejected err) (c, w))) = totalItems c"
  "children (fst (loadMore_resume (Rejected err) (c, w))) = children c"
  "hasMore (fst (loadMore_resume (Rejected err) (c, w))) = hasMore c"
  "\<not> isLoading (fst (loadMore_resume (Rejected err) (c, w)))"
  "statusText (fst (loadMore_resume (Rejected err) (c, w))) = []"
  by (simp_all add: resume_rejected setLoading_def)

text \<open>
  C3. A call of \<open>loadMore\<close> on the example controller whose fetch is rejected: the
  announcer holds the error message at \<open>assertive\<close> priority, \<open>hasMore\<close> is as before
  and \<open>isLoading\<close> is cleared. The status element does not show the error: the
  \<open>catch\<close> block writes the message, and \<open>setLoading(false)\<close> in the \<open>finally\<close>
  block assigns the empty string over it before the call returns.
\<close>

theorem failed_load_status_erased:
  "(case loadMore (\<lambda>c. Rejected ''offline'') (exampleController, exampleWindow) of
      (c', w') \<Rightarrow>
        statusText c' = []
      \<and> statusText c' \<noteq> ''Error loading items. Please try again.''
      \<and> hasMore c' = hasMore exampleController
      \<and> \<not> isLoading c'
      \<and> map_option (\<lambda>m. (getAttribute ''aria-live'' (announcer m), textContent (announcer m))) w'
          = Some (Some ''assertive'', ''Error loading more items''))
   \<and> statusText (fst (loadMore_catch ''offline'' (exampleController, exampleWindow)))
       = ''Error loading items. Please try again.''"
  by (simp add: loadMore_def loadMore_begin_def exampleController_eq resume_rejected setLoading_def
      exampleWindow_def a11y_announce_def announce_def getAttribute_def setAttribute_def
      newAccessibilityManager_def createLiveRegion_def createElement_def catch_writes_status
      defaultPaginationOptions_def)

text \<open>
  C10. After a call of \<open>loadMore\<close> on the example controller whose fetch is rejected,
  the controller equals the controller before the call in every field but the count of
  fetches and the console log: page number, item count and children are untouched, and
  so is the status text, which is empty again; no error text lasts.
\<close>

theorem failed_load_leaves_no_error_text:
  "fst (loadMore (\<lambda>c. Rejected ''offline'') (exampleController, exampleWindow))
     = exampleController\<lparr>fetchCalls := 1,
         consoleErrors := [''Error loading more items: offline'']\<rparr>"
  by (simp add: loadMore_def loadMore_begin_def exampleController_eq resume_rejected setLoading_def
      defaultPaginationOptions_def)

section \<open>The load-more controller: the reference item source\<close>

lemma exampleController_fields:
  "totalItems exampleController = 3" "itemsPerPage (options exampleController) = 10"
  "\<not> isLoading exampleController" "hasMore exampleController"
  by (simp_all add: exampleController_def newAccessiblePagination_def threeItems_def
      defaultPaginationOptions_def updatePageInfo_def Let_def)

lemma length_fetchLoop:
  "length (fetchLoop i n t acc) = length acc + nat (n - i)"
proof (induction i n t acc rule: fetchLoop.induct)
  case (1 i itemsToLoad tot items)
  show ?case
  proof (cases "i < itemsToLoad")
    case True
    then show ?thesis using "1" by (subst fetchLoop.simps) simp
  next
    case False
    then show ?thesis by (subst fetchLoop.simps) simp
  qed
qed

lemma length_fetchMoreItems:
  "length (fetchMoreItems c) = nat (min (itemsPerPage (options c)) (50 - totalItems c))"
  by (simp add: fetchMoreItems_def Let_def length_fetchLoop)

lemma fetchMoreItems_cong:
  "options c' = options c \<Longrightarrow> totalItems c' = totalItems c \<Longrightarrow> fetchMoreItems c' = fetchMoreItems c"
  by (simp add: fetchMoreItems_def)

lemma updatePageInfo_fields:
  "options (updatePageInfo c) = options c" "totalItems (updatePageInfo c) = totalItems c"
  "hasMore (updatePageInfo c) = hasMore c" "isLoading (updatePageInfo c) = isLoading c"
  "currentPage (updatePageInfo c) = currentPage c" "children (updatePageInfo c) = children c"
  by (simp_all add: updatePageInfo_def split: option.splits)

lemma addItems_fields:
  "options (addItems items c) = options c"
  "totalItems (addItems items c) = totalItems c + int (length items)"
  "hasMore (addItems items c) = hasMore c"
  "isLoading (addItems items c) = isLoading c"
  "currentPage (addItems items c) = currentPage c"
  by (simp_all add: addItems_def Let_def updatePageInfo_fields split: option.splits)

lemma begin_idle:
  "\<not> isLoading c \<Longrightarrow> hasMore c \<Longrightarrow>
   loadMore_begin c = Awaiting ((setLoading True c)\<lparr>fetchCalls := fetchCalls c + 1\<rparr>)"
  by (simp add: loadMore_begin_def)

lemma referenceResponse_idle:
  "\<not> isLoading c \<Longrightarrow> hasMore c \<Longrightarrow> referenceResponse c = Some (fetchMoreItems c)"
  by (simp add: referenceResponse_def begin_idle fetchMoreItems_def setLoading_def)

text \<open>One call with the reference source, from an idle controller that has more.\<close>

lemma loadMore_reference_some:
  assumes "\<not> isLoading c" "hasMore c" "0 < min (itemsPerPage (options c)) (50 - totalItems c)"
  shows "totalItems (fst (loadMore referenceSource (c, w)))
           = totalItems c + min (itemsPerPage (options c)) (50 - totalItems c)"
    and "hasMore (fst (loadMore referenceSource (c, w)))"
    and "\<not> isLoading (fst (loadMore referenceSource (c, w)))"
    and "options (fst (loadMore referenceSource (c, w))) = options c"
    and "currentPage (fst (loadMore referenceSource (c, w))) = currentPage c + 1"
proof -
  let ?c' = "(setLoading True c)\<lparr>fetchCalls := fetchCalls c + 1\<rparr>"
  have same: "fetchMoreItems ?c' = fetchMoreItems c"
    by (rule fetchMoreItems_cong) (simp_all add: setLoading_def)
  have len: "length (fetchMoreItems c) = nat (min (itemsPerPage (options c)) (50 - totalItems c))"
    by (rule length_fetchMoreItems)
  have ne: "truthy_nonempty (Some (fetchMoreItems c))"
    using assms(3) len by (simp add: truthy_nonempty_def)
  have unfold: "loadMore referenceSource (c, w)
      = loadMore_finally (loadMore_try (Some (fetchMoreItems c)) (?c', w))"
    using assms(1,2) same
    by (simp add: loadMore_def begin_idle referenceSource_def loadMore_resume_def)
  have tot: "totalItems ?c' = totalItems c" "options ?c' = options c" "hasMore ?c'"
    "currentPage ?c' = currentPage c"
    using assms(2) by (simp_all add: setLoading_def)
  show "totalItems (fst (loadMore referenceSource (c, w)))
           = totalItems c + min (itemsPerPage (options c)) (50 - totalItems c)"
    using ne len assms(3) tot
    by (simp add: unfold loadMore_try_def loadMore_finally_def Let_def addItems_fields setLoading_def)
  show "hasMore (fst (loadMore referenceSource (c, w)))"
    using ne tot
    by (simp add: unfold loadMore_try_def loadMore_finally_def Let_def addItems_fields setLoading_def)
  show "\<not> isLoading (fst (loadMore referenceSource (c, w)))"
    using ne
    by (simp add: unfold loadMore_try_def loadMore_finally_def Let_def addItems_fields setLoading_def)
  show "options (fst (loadMore referenceSource (c, w))) = options c"
    using ne tot
    by (simp add: unfold loadMore_try_def loadMore_finally_def Let_def addItems_fields setLoading_def)
  show "currentPage (fst (loadMore referenceSource (c, w))) = currentPage c + 1"
    using ne tot
    by (simp add: unfold loadMore_try_def loadMore_finally_def Let_def addItems_fields setLoading_def)
qed

lemma loadMore_reference_none:
  assumes "\<not> isLoading c" "hasMore c" "min (itemsPerPage (options c)) (50 - totalItems c) \<le> 0"
  shows "\<not> hasMore (fst (loadMore referenceSource (c, w)))"
    and "totalItems (fst (loadMore referenceSource (c, w))) = totalItems c"
proof -
  let ?c' = "(setLoading True c)\<lparr>fetchCalls := fetchCalls c + 1\<rparr>"
  have same: "fetchMoreItems ?c' = fetchMoreItems c"
    by (rule fetchMoreItems_cong) (simp_all add: setLoading_def)
  have "length (fetchMoreItems c) = 0"
    using assms(3) by (simp add: length_fetchMoreItems)
  then have ne: "\<not> truthy_nonempty (Some (fetchMoreItems c))"
    by (simp add: truthy_nonempty_def)
  have unfold: "loadMore referenceSource (c, w)
      = loadMore_finally (loadMore_try (Some (fetchMoreItems c)) (?c', w))"
    using assms(1,2) same
    by (simp add: loadMore_def begin_idle referenceSource_def loadMore_resume_def)
  show "\<not> hasMore (fst (loadMore referenceSource (c, w)))"
    using ne by (simp add: unfold loadMore_try_def loadMore_finally_def setLoading_def)
  show "totalItems (fst (loadMore referenceSource (c, w))) = totalItems c"
    using ne by (simp add: unfold loadMore_try_def loadMore_finally_def setLoading_def)
qed


lemma reference_step:
  assumes "\<not> isLoading (fst s)" "hasMore (fst s)" "itemsPerPage (options (fst s)) = 10"
    and "totalItems (fst s) = t" "t < 50"
  shows "totalItems (fst (loadMore referenceSource s)) = t + min 10 (50 - t)
       \<and> hasMore (fst (loadMore referenceSource s))
       \<and> \<not> isLoading (fst (loadMore referenceSource s))
       \<and> itemsPerPage (options (fst (loadMore referenceSource s))) = 10"
proof -
  have pos: "0 < min (itemsPerPage (options (fst s))) (50 - totalItems (fst s))"
    using assms(3,4,5) by simp
  show ?thesis
    using loadMore_reference_some [OF assms(1,2) pos, of "snd s"] assms(3,4)
    by simp
qed

lemma reference_scenario_facts:
  assumes "totalItems c = 3" "itemsPerPage (options c) = 10" "\<not> isLoading c" "hasMore c"
  shows "totalItems (fst (loadMoreTimes 5 referenceSource (c, w))) = 50"
    and "hasMore (fst (loadMoreTimes 5 referenceSource (c, w)))"
    and "map_option length (referenceResponse (fst (loadMoreTimes 4 referenceSource (c, w)))) = Some 7"
    and "referenceResponse (fst (loadMoreTimes 5 referenceSource (c, w))) = Some []"
    and "\<not> hasMore (fst (loadMoreTimes 6 referenceSource (c, w)))"
    and "totalItems (fst (loadMoreTimes 6 referenceSource (c, w))) = 50"
proof -
  define s1 where "s1 = loadMore referenceSource (c, w)"
  define s2 where "s2 = loadMore referenceSource s1"
  define s3 where "s3 = loadMore referenceSource s2"
  define s4 where "s4 = loadMore referenceSource s3"
  define s5 where "s5 = loadMore referenceSource s4"
  define s6 where "s6 = loadMore referenceSource s5"
  have f1: "totalItems (fst s1) = 13 \<and> hasMore (fst s1) \<and> \<not> isLoading (fst s1)
      \<and> itemsPerPage (options (fst s1)) = 10"
    unfolding s1_def using reference_step [of "(c, w)" 3] assms by simp
  have f2: "totalItems (fst s2) = 23 \<and> hasMore (fst s2) \<and> \<not> isLoading (fst s2)
      \<and> itemsPerPage (options (fst s2)) = 10"
    unfolding s2_def using reference_step [of s1 13] f1 by simp
  have f3: "totalItems (fst s3) = 33 \<and> hasMore (fst s3) \<and> \<not> isLoading (fst s3)
      \<and> itemsPerPage (options (fst s3)) = 10"
    unfolding s3_def using reference_step [of s2 23] f2 by simp
  have f4: "totalItems (fst s4) = 43 \<and> hasMore (fst s4) \<and> \<not> isLoading (fst s4)
      \<and> itemsPerPage (options (fst s4)) = 10"
    unfolding s4_def using reference_step [of s3 33] f3 by simp
  have f5: "totalItems (fst s5) = 50 \<and> hasMore (fst s5) \<and> \<not> isLoading (fst s5)
      \<and> itemsPerPage (options (fst s5)) = 10"
    unfolding s5_def using reference_step [of s4 43] f4 by simp
  have f6: "\<not> hasMore (fst s6) \<and> totalItems (fst s6) = 50"
    unfolding s6_def
    using loadMore_reference_none [of "fst s5" "snd s5"] f5 by simp
  have t4: "loadMoreTimes 4 referenceSource (c, w) = s4"
    by (simp add: eval_nat_numeral s1_def s2_def s3_def s4_def)
  have t5: "loadMoreTimes 5 referenceSource (c, w) = s5"
    by (simp add: eval_nat_numeral s1_def s2_def s3_def s4_def s5_def)
  have t6: "loadMoreTimes 6 referenceSource (c, w) = s6"
    by (simp add: eval_nat_numeral s1_def s2_def s3_def s4_def s5_def s6_def)
  show "totalItems (fst (loadMoreTimes 5 referenceSource (c, w))) = 50"
    using f5 by (simp add: t5)
  show "hasMore (fst (loadMoreTimes 5 referenceSource (c, w)))"
    using f5 by (simp add: t5)
  show "map_option length (referenceResponse (fst (loadMoreTimes 4 referenceSource (c, w)))) = Some 7"
    using f4 by (simp add: t4 referenceResponse_idle length_fetchMoreItems)
  show "referenceResponse (fst (loadMoreTimes 5 referenceSource (c, w))) = Some []"
    using f5 length_fetchMoreItems [of "fst s5"] by (simp add: t5 referenceResponse_idle)
  show "\<not> hasMore (fst (loadMoreTimes 6 referenceSource (c, w)))"
    using f6 by (simp add: t6)
  show "totalItems (fst (loadMoreTimes 6 referenceSource (c, w))) = 50"
    using f6 by (simp add: t6)
qed

text \<open>
  C4 (as the code has it). From a controller with \<open>totalItems = 3\<close>,
  \<open>itemsPerPage = 10\<close>, idle and not exhausted, with the reference source: after five
  calls \<open>totalItems = 50\<close> and \<open>hasMore\<close> is still set; the response to the fifth call
  has 7 items; the response to the sixth call is empty, and it is the sixth call that
  clears \<open>hasMore\<close>, with \<open>totalItems\<close> remaining 50.
\<close>

theorem reference_scenario:
  assumes "totalItems c = 3" "itemsPerPage (options c) = 10" "\<not> isLoading c" "hasMore c"
  shows "totalItems (fst (loadMoreTimes 5 referenceSource (c, w))) = 50
       \<and> hasMore (fst (loadMoreTimes 5 referenceSource (c, w)))
       \<and> map_option length (referenceResponse (fst (loadMoreTimes 4 referenceSource (c, w)))) = Some 7
       \<and> referenceResponse (fst (loadMoreTimes 5 referenceSource (c, w))) = Some []
       \<and> \<not> hasMore (fst (loadMoreTimes 6 referenceSource (c, w)))
       \<and> totalItems (fst (loadMoreTimes 6 referenceSource (c, w))) = 50"
  using reference_scenario_facts [OF assms] by blast

theorem reference_scenario_witness:
  "totalItems (fst (loadMoreTimes 5 referenceSource (exampleController, exampleWindow))) = 50
   \<and> referenceResponse (fst (loadMoreTimes 5 referenceSource (exampleController, exampleWindow))) = Some []
   \<and> \<not> hasMore (fst (loadMoreTimes 6 referenceSource (exampleController, exampleWindow)))"
  using reference_scenario [OF exampleController_fields] by blast

text \<open>On the example controller the response to the fifth call has 7 items, not none,
  and \<open>hasMore\<close> is still set after five calls.\<close>

theorem fifth_response_not_empty:
  "map_option length
     (referenceResponse (fst (loadMoreTimes 4 referenceSource (exampleController, exampleWindow))))
     = Some 7
   \<and> map_option length
     (referenceResponse (fst (loadMoreTimes 4 referenceSource (exampleController, exampleWindow))))
     \<noteq> Some 0
   \<and> hasMore (fst (loadMoreTimes 5 referenceSource (exampleController, exampleWindow)))"
  using reference_scenario_facts(2,3) [OF exampleController_fields, of exampleWindow] by auto

section \<open>The announcer\<close>

lemma getAttribute_setAttribute:
  "getAttribute k (setAttribute k' v e) = (if k = k' then Some v else getAttribute k e)"
  by (simp add: getAttribute_def setAttribute_def update_conv')

lemma textContent_setAttribute: "textContent (setAttribute k v e) = textContent e"
  by (simp add: setAttribute_def)

lemma announce_fields:
  "textContent (announcer (announce message priority m)) = message"
  "getAttribute ''aria-live'' (announcer (announce message priority m)) = Some priority"
  "textLog (announce message priority m) = textLog m @ [message]"
  "timers (announce message priority m) = timers m @ [clock m + 1000]"
  "clock (announce message priority m) = clock m"
  by (simp_all add: announce_def getAttribute_def setAttribute_def update_conv')

lemma announce_facts:
  "textContent (announcer (announce message priority m)) = message"
  "getAttribute ''aria-live'' (announcer (announce message priority m)) = Some priority"
  "textLog (announce message priority m) = textLog m @ [message]"
  "textLog (announce message priority (announce message priority m)) = textLog m @ [message, message]"
  "timers (announce message priority m) = timers m @ [clock m + 1000]"
  "1000 \<le> d1 \<Longrightarrow> textContent (announcer (advance d1 (announce message priority m))) = []"
  "timers m = [] \<Longrightarrow> d2 < 1000 \<Longrightarrow>
     textContent (announcer (advance d2 (announce message priority m))) = message"
  by (simp_all add: announce_fields advance_def Let_def)

text \<open>
  C5 (as the code has it). \<open>announce\<close> sets the priority of the live region and
  assigns the message to its text in one write, with no clearing write before it, and
  schedules one clearing callback 1000 ms later. Two identical announcements in a row
  are two writes of the same text with nothing between them. Once 1000 ms have passed
  since an announcement the region is empty; with no older callback pending, the
  message stays until then.
\<close>

theorem announce_overwrites_then_clears:
  "textContent (announcer (announce message priority m)) = message
   \<and> getAttribute ''aria-live'' (announcer (announce message priority m)) = Some priority
   \<and> textLog (announce message priority m) = textLog m @ [message]
   \<and> textLog (announce message priority (announce message priority m)) = textLog m @ [message, message]
   \<and> timers (announce message priority m) = timers m @ [clock m + 1000]
   \<and> (1000 \<le> d1 \<longrightarrow> textContent (announcer (advance d1 (announce message priority m))) = [])
   \<and> (timers m = [] \<and> d2 < 1000 \<longrightarrow>
        textContent (announcer (advance d2 (announce message priority m))) = message)"
  using announce_facts [where message = message and priority = priority and m = m] by blast

theorem announce_overwrites_then_clears_witness:
  "textLog (announce ''Slide 2 of 4'' ''polite'' (announce ''Slide 2 of 4'' ''polite'' (newAccessibilityManager False)))
     = [''Slide 2 of 4'', ''Slide 2 of 4'']
   \<and> textContent (announcer (advance 1000 (announce ''Slide 2 of 4'' ''polite'' (newAccessibilityManager False)))) = []
   \<and> textContent (announcer (advance 999 (announce ''Slide 2 of 4'' ''polite'' (newAccessibilityManager False))))
     = ''Slide 2 of 4''"
proof -
  have t: "timers (newAccessibilityManager False) = []" "textLog (newAccessibilityManager False) = []"
    by (simp_all add: newAccessibilityManager_def)
  show ?thesis
    using announce_overwrites_then_clears [where message = "''Slide 2 of 4''" and priority = "''polite''"
        and m = "newAccessibilityManager False" and ?d1.0 = 1000 and ?d2.0 = 999] t
    by simp
qed

text \<open>The message of the claim announced twice in a row: the trace of writes holds the
  message twice and no empty string, and the text of the live region after the second
  call is the text after the first.\<close>

theorem repeated_announce_no_clear_between:
  "textLog (announce ''Slide 2 of 4'' ''polite''
             (announce ''Slide 2 of 4'' ''polite'' (newAccessibilityManager False)))
     = [''Slide 2 of 4'', ''Slide 2 of 4'']
   \<and> [] \<notin> set (textLog (announce ''Slide 2 of 4'' ''polite''
             (announce ''Slide 2 of 4'' ''polite'' (newAccessibilityManager False))))
   \<and> textContent (announcer (announce ''Slide 2 of 4'' ''polite''
             (announce ''Slide 2 of 4'' ''polite'' (newAccessibilityManager False))))
     = textContent (announcer (announce ''Slide 2 of 4'' ''polite'' (newAccessibilityManager False)))"
  by (simp add: announce_fields newAccessibilityManager_def)

section \<open>The carousel: going to the current slide\<close>

lemma exampleCarousel_current: "currentSlide exampleCarousel = Num 0"
  by (simp add: exampleCarousel_def newAccessibleCarousel_def)

text \<open>
  C9. For every carousel and every index that is \<open>===\<close> the current slide,
  \<open>goToSlide\<close> returns at its guard: the carousel (slides, their visibility and
  \<open>tabindex\<close>, dots, current slide) and the window (so the announcer) are exactly as
  before.
\<close>

theorem goToSlide_current_noop:
  assumes "js_strict_eq index (currentSlide c)"
  shows "goToSlide index (c, w) = Ok (c, w)"
  using assms by (simp add: goToSlide_def)

theorem goToSlide_current_noop_witness:
  "goToSlide (Num 0) (exampleCarousel, exampleWindow) = Ok (exampleCarousel, exampleWindow)"
proof -
  have h: "js_strict_eq (Num 0) (currentSlide exampleCarousel)"
    by (simp add: exampleCarousel_current)
  show ?thesis using goToSlide_current_noop [OF h] by simp
qed

section \<open>Missing structure\<close>

lemma emptyCarousel_eq:
  "emptyCarousel = \<lparr>carouselOptions = defaultCarouselOptions, currentSlide = Num 0, slides = [], dots = []\<rparr>"
  by (simp add: emptyCarousel_def newAccessibleCarousel_def exampleWindow_def
      newAccessibilityManager_def shouldReduceMotion_def defaultCarouselOptions_def)

text \<open>
  C8. A dropdown whose trigger has no menu element: \<open>setupStructure\<close> returns early,
  but \<open>init\<close> goes on, the listeners are attached, and \<open>setupAccessibility\<close> throws
  a \<open>TypeError\<close> on \<open>this.menu.appendChild\<close>, so the constructor throws; a click on
  the trigger then throws again in \<open>open\<close>. A carousel with no slides is constructed
  without an exception, but \<open>nextSlide\<close> and \<open>previousSlide\<close> (the arrow buttons and
  the arrow keys) compute the index \<open>NaN\<close>, which passes the guard of \<open>goToSlide\<close>,
  and throw a \<open>TypeError\<close> on \<open>this.slides[previousSlide].classList\<close>, leaving
  \<open>currentSlide = NaN\<close>.
\<close>

theorem missing_structure_crashes:
  "orphanDropdown = Throw TypeError
     \<lparr>dropdownOptions = defaultDropdownOptions, trigger = createElement ''button'', menu = None,
      menuItems = [], menuAppended = [], isOpen = False, currentIndex = Num (- 1),
      listenersAttached = True, activeElement = Elsewhere\<rparr>
   \<and> \<not> is_ok (toggle (state_of orphanDropdown, exampleWindow))
   \<and> slides emptyCarousel = []
   \<and> nextSlide (emptyCarousel, exampleWindow)
       = Throw TypeError (emptyCarousel\<lparr>currentSlide := NaN\<rparr>, exampleWindow)
   \<and> previousSlide (emptyCarousel, exampleWindow)
       = Throw TypeError (emptyCarousel\<lparr>currentSlide := NaN\<rparr>, exampleWindow)
   \<and> \<not> is_ok (carouselKeydown ''ArrowRight'' None (emptyCarousel, exampleWindow))
   \<and> \<not> is_ok (carouselKeydown ''ArrowLeft'' None (emptyCarousel, exampleWindow))"
  by (simp add: orphanDropdown_def newAccessibleDropdown_def setupAccessibility_def
      setupEventListeners_def setupStructure_def Let_def getAttribute_def createElement_def
      toggle_def dropdown_open_def
      emptyCarousel_eq nextSlide_def previousSlide_def goToSlide_def hidePrevious_def
      carouselKeydown_def)

section \<open>Indices that wrap around, and the roving tab stop\<close>

lemma js_rem_nonneg: "0 \<le> a \<Longrightarrow> 0 < n \<Longrightarrow> js_rem (Num a) (Num n) = Num (a mod n)"
  by (cases "a = 0") (simp_all add: sgn_if)

lemma length_js_update [simp]: "length (js_update xs idx v) = length xs"
  by (cases idx) simp_all

lemma stops_length [simp]: "length (stops es) = length es"
  by (simp add: stops_def)

lemma getAttribute_classList [simp]:
  "getAttribute a (classList_add cl e) = getAttribute a e"
  "getAttribute a (classList_remove cl e) = getAttribute a e"
  by (simp_all add: getAttribute_def classList_add_def classList_remove_def)

lemma stops_update:
  "stops (es[j := setAttribute ''tabindex'' v e]) = (stops es)[j := (v = ''0'')]"
  by (simp add: stops_def map_update getAttribute_def setAttribute_def update_conv')

text \<open>The dropdown: moving the focus to a valid index.\<close>

lemma focusItem_valid:
  assumes "0 \<le> i" "i < int (length (menuItems d))"
    and "currentIndex d = Num k" "k < int (length (menuItems d))"
  shows "is_ok (focusItem (Num i) d)"
    and "currentIndex (state_of (focusItem (Num i) d)) = Num i"
    and "length (menuItems (state_of (focusItem (Num i) d))) = length (menuItems d)"
    and "stops (menuItems (state_of (focusItem (Num i) d)))
           = (if 0 \<le> k then (stops (menuItems d))[nat k := False] else stops (menuItems d))[nat i := True]"
  using assms
  by (simp_all add: focusItem_def blurCurrent_def focusNew_def Let_def stops_update)

lemma focusNextItem_valid:
  assumes "currentIndex d = Num k" "0 \<le> k" "k < int (length (menuItems d))"
  shows "is_ok (focusNextItem d)"
    and "currentIndex (state_of (focusNextItem d)) = Num ((k + 1) mod int (length (menuItems d)))"
    and "length (menuItems (state_of (focusNextItem d))) = length (menuItems d)"
proof -
  let ?n = "int (length (menuItems d))"
  have n: "0 < ?n" using assms(2,3) by linarith
  have idx: "js_rem (js_add (currentIndex d) (Num 1)) (Num ?n) = Num ((k + 1) mod ?n)"
    using assms(1,2) n by (simp del: js_rem.simps add: js_rem_nonneg)
  have r: "0 \<le> (k + 1) mod ?n" "(k + 1) mod ?n < ?n"
    using n by simp_all
  show "is_ok (focusNextItem d)"
    using focusItem_valid(1) [OF r assms(1,3)] by (simp add: focusNextItem_def idx)
  show "currentIndex (state_of (focusNextItem d)) = Num ((k + 1) mod ?n)"
    using focusItem_valid(2) [OF r assms(1,3)] by (simp add: focusNextItem_def idx)
  show "length (menuItems (state_of (focusNextItem d))) = length (menuItems d)"
    using focusItem_valid(3) [OF r assms(1,3)] by (simp add: focusNextItem_def idx)
qed

lemma focusPreviousItem_valid:
  assumes "currentIndex d = Num k" "0 \<le> k" "k < int (length (menuItems d))"
  shows "is_ok (focusPreviousItem d)"
    and "currentIndex (state_of (focusPreviousItem d))
           = Num ((k - 1 + int (length (menuItems d))) mod int (length (menuItems d)))"
proof -
  let ?n = "int (length (menuItems d))"
  have n: "0 < ?n" using assms(2,3) by linarith
  have nonneg: "0 \<le> k - 1 + ?n" using assms(2) n by linarith
  have idx: "js_rem (js_add (js_sub (currentIndex d) (Num 1)) (Num ?n)) (Num ?n)
      = Num ((k - 1 + ?n) mod ?n)"
    using assms(1) nonneg n by (simp del: js_rem.simps add: js_rem_nonneg)
  have r: "0 \<le> (k - 1 + ?n) mod ?n" "(k - 1 + ?n) mod ?n < ?n"
    using n by simp_all
  show "is_ok (focusPreviousItem d)"
    using focusItem_valid(1) [OF r assms(1,3)] by (simp add: focusPreviousItem_def idx)
  show "currentIndex (state_of (focusPreviousItem d)) = Num ((k - 1 + ?n) mod ?n)"
    using focusItem_valid(2) [OF r assms(1,3)] by (simp add: focusPreviousItem_def idx)
qed

lemma iterate_focusNextItem:
  assumes "currentIndex d = Num k" "0 \<le> k" "k < int (length (menuItems d))"
  shows "is_ok (iterate j focusNextItem d)
       \<and> currentIndex (state_of (iterate j focusNextItem d))
           = Num ((k + int j) mod int (length (menuItems d)))
       \<and> length (menuItems (state_of (iterate j focusNextItem d))) = length (menuItems d)"
  using assms
proof (induction j arbitrary: d k)
  case 0
  then show ?case by simp
next
  case (Suc j)
  let ?n = "int (length (menuItems d))"
  have n: "0 < ?n" using Suc.prems(2,3) by linarith
  obtain d1 where d1: "focusNextItem d = Ok d1"
    using focusNextItem_valid(1) [OF Suc.prems] by (cases "focusNextItem d") simp_all
  have cur: "currentIndex d1 = Num ((k + 1) mod ?n)"
    using focusNextItem_valid(2) [OF Suc.prems] d1 by simp
  have len: "length (menuItems d1) = length (menuItems d)"
    using focusNextItem_valid(3) [OF Suc.prems] d1 by simp
  have r: "0 \<le> (k + 1) mod ?n" "(k + 1) mod ?n < int (length (menuItems d1))"
    using n len by simp_all
  have ih: "is_ok (iterate j focusNextItem d1)
       \<and> currentIndex (state_of (iterate j focusNextItem d1))
           = Num (((k + 1) mod ?n + int j) mod ?n)
       \<and> length (menuItems (state_of (iterate j focusNextItem d1))) = length (menuItems d)"
    using Suc.IH [OF cur r] len by simp
  have "((k + 1) mod ?n + int j) mod ?n = (k + 1 + int j) mod ?n"
    by (rule mod_add_left_eq)
  then have arith: "((k + 1) mod ?n + int j) mod ?n = (k + int (Suc j)) mod ?n"
    by (simp add: add.assoc)
  show ?case
    using ih arith by (simp add: d1)
qed


text \<open>The carousel: the dots do not touch the slides, and do not throw when there is
  one for each slide.\<close>

lemma updateDots_keeps:
  "slides (state_of (updateDots p c)) = slides c"
  "currentSlide (state_of (updateDots p c)) = currentSlide c"
  by (simp_all add: updateDots_def deselectDot_def selectDot_def split: option.splits)

lemma updateDots_ok:
  assumes "dotsMatchSlides c" "0 \<le> k" "k < int (length (slides c))"
    and "currentSlide c = Num i" "0 \<le> i" "i < int (length (slides c))"
  shows "is_ok (updateDots (Num k) c)"
    and "length (dots (state_of (updateDots (Num k) c))) = length (dots c)"
  using assms
  by (auto simp add: updateDots_def deselectDot_def selectDot_def dotsMatchSlides_def)

lemma goToSlide_valid:
  assumes "0 \<le> i" "i < int (length (slides c))"
    and "currentSlide c = Num k" "0 \<le> k" "k < int (length (slides c))"
  shows "currentSlide (fst (state_of (goToSlide (Num i) (c, w)))) = Num i"
    and "length (slides (fst (state_of (goToSlide (Num i) (c, w))))) = length (slides c)"
    and "stops (slides (fst (state_of (goToSlide (Num i) (c, w)))))
           = (if i = k then stops (slides c) else (stops (slides c))[nat k := False, nat i := True])"
    and "dotsMatchSlides c \<Longrightarrow> is_ok (goToSlide (Num i) (c, w))
           \<and> dotsMatchSlides (fst (state_of (goToSlide (Num i) (c, w))))"
proof -
  let ?c1 = "c\<lparr>currentSlide := Num i\<rparr>"
  let ?c2 = "?c1\<lparr>slides := (slides c)[nat k := setAttribute ''tabindex'' ''-1''
                 (classList_add ''hidden'' (slides c ! nat k))]\<rparr>"
  let ?c3 = "?c2\<lparr>slides := (slides ?c2)[nat i := setAttribute ''tabindex'' ''0''
                 (classList_remove ''hidden'' (slides ?c2 ! nat i))]\<rparr>"
  have hide: "hidePrevious (Num k) ?c1 = Ok ?c2"
    using assms(4,5) by (simp add: hidePrevious_def)
  have shw: "showCurrent ?c2 = Ok ?c3"
    using assms(1,2) by (simp add: showCurrent_def)
  have go: "i \<noteq> k \<Longrightarrow> goToSlide (Num i) (c, w)
      = (case updateDots (Num k) ?c3 of Throw e c' \<Rightarrow> Throw e (c', w)
         | Ok c' \<Rightarrow> Ok (c', announceSlide c' w))"
    using assms(1,2,3) hide shw by (simp add: goToSlide_def Let_def)
  have same: "i = k \<Longrightarrow> goToSlide (Num i) (c, w) = Ok (c, w)"
    using assms(3) by (simp add: goToSlide_def)
  have st: "i \<noteq> k \<Longrightarrow> fst (state_of (goToSlide (Num i) (c, w))) = state_of (updateDots (Num k) ?c3)"
    by (simp add: go split: result.splits)
  show "currentSlide (fst (state_of (goToSlide (Num i) (c, w)))) = Num i"
    using assms(3) same st by (cases "i = k") (simp_all add: updateDots_keeps)
  show "length (slides (fst (state_of (goToSlide (Num i) (c, w))))) = length (slides c)"
    using same st by (cases "i = k") (simp_all add: updateDots_keeps)
  show "stops (slides (fst (state_of (goToSlide (Num i) (c, w)))))
           = (if i = k then stops (slides c) else (stops (slides c))[nat k := False, nat i := True])"
    using same st by (cases "i = k") (simp_all add: updateDots_keeps stops_update)
  show "is_ok (goToSlide (Num i) (c, w))
           \<and> dotsMatchSlides (fst (state_of (goToSlide (Num i) (c, w))))"
    if dm: "dotsMatchSlides c"
  proof (cases "i = k")
    case True
    then show ?thesis using same dm by simp
  next
    case False
    have dm3: "dotsMatchSlides ?c3"
      using dm by (simp add: dotsMatchSlides_def)
    have ok: "is_ok (updateDots (Num k) ?c3)"
      and len: "length (dots (state_of (updateDots (Num k) ?c3))) = length (dots ?c3)"
      using updateDots_ok [OF dm3, of k i] assms by simp_all
    have "dotsMatchSlides (state_of (updateDots (Num k) ?c3))"
      using dm3 len by (simp add: dotsMatchSlides_def updateDots_keeps)
    then show ?thesis
      using ok st [OF False] go [OF False] by (simp split: result.splits)
  qed
qed

lemma nextSlide_index:
  assumes "currentSlide c = Num k" "0 \<le> k" "k < int (length (slides c))"
  shows "nextSlide (c, w) = goToSlide (Num ((k + 1) mod int (length (slides c)))) (c, w)"
proof -
  have n: "0 < int (length (slides c))" using assms(2,3) by linarith
  show ?thesis
    using assms(1,2) n by (simp del: js_rem.simps add: nextSlide_def js_rem_nonneg)
qed

lemma previousSlide_index:
  assumes "currentSlide c = Num k" "0 \<le> k" "k < int (length (slides c))"
  shows "previousSlide (c, w)
           = goToSlide (Num ((k - 1 + int (length (slides c))) mod int (length (slides c)))) (c, w)"
proof -
  have n: "0 < int (length (slides c))" using assms(2,3) by linarith
  have nonneg: "0 \<le> k - 1 + int (length (slides c))" using assms(2) n by linarith
  show ?thesis
    using assms(1) nonneg n by (simp del: js_rem.simps add: previousSlide_def js_rem_nonneg)
qed

lemma iterate_nextSlide:
  assumes "currentSlide c = Num k" "0 \<le> k" "k < int (length (slides c))" "dotsMatchSlides c"
  shows "is_ok (iterate j nextSlide (c, w))
       \<and> currentSlide (fst (state_of (iterate j nextSlide (c, w))))
           = Num ((k + int j) mod int (length (slides c)))
       \<and> length (slides (fst (state_of (iterate j nextSlide (c, w))))) = length (slides c)"
  using assms
proof (induction j arbitrary: c k w)
  case 0
  then show ?case by simp
next
  case (Suc j)
  let ?n = "int (length (slides c))"
  let ?i = "(k + 1) mod ?n"
  have n: "0 < ?n" using Suc.prems(2,3) by linarith
  have r: "0 \<le> ?i" "?i < ?n" using n by simp_all
  have nx: "nextSlide (c, w) = goToSlide (Num ?i) (c, w)"
    by (rule nextSlide_index [OF Suc.prems(1,2,3)])
  have "is_ok (nextSlide (c, w))"
    using goToSlide_valid(4) [OF r Suc.prems(1,2,3) Suc.prems(4), of w] by (simp add: nx)
  then obtain c1 w1 where s1: "nextSlide (c, w) = Ok (c1, w1)"
    by (cases "nextSlide (c, w)") auto
  have g1: "goToSlide (Num ?i) (c, w) = Ok (c1, w1)"
    using nx s1 by simp
  have cur: "currentSlide c1 = Num ?i"
    using goToSlide_valid(1) [OF r Suc.prems(1,2,3), of w] by (simp add: g1)
  have len: "length (slides c1) = length (slides c)"
    using goToSlide_valid(2) [OF r Suc.prems(1,2,3), of w] by (simp add: g1)
  have dm: "dotsMatchSlides c1"
    using goToSlide_valid(4) [OF r Suc.prems(1,2,3) Suc.prems(4), of w] by (simp add: g1)
  have r1: "?i < int (length (slides c1))" using r len by simp
  have ih: "is_ok (iterate j nextSlide (c1, w1))
       \<and> currentSlide (fst (state_of (iterate j nextSlide (c1, w1)))) = Num ((?i + int j) mod ?n)
       \<and> length (slides (fst (state_of (iterate j nextSlide (c1, w1))))) = length (slides c)"
    using Suc.IH [OF cur r(1) r1 dm, of w1] len by simp
  have "(?i + int j) mod ?n = (k + 1 + int j) mod ?n"
    by (rule mod_add_left_eq)
  then have arith: "(?i + int j) mod ?n = (k + int (Suc j)) mod ?n"
    by (simp add: add.assoc)
  show ?case
    using ih arith by (simp add: s1)
qed


text \<open>Counting tab stops.\<close>

lemma tabStops_stops: "tabStops es = length (filter (\<lambda>b. b) (stops es))"
  by (simp add: tabStops_def stops_def filter_map comp_def)

lemma filter_replicate_False: "filter (\<lambda>b. b) (replicate n False) = []"
  by (induction n) simp_all

lemma count_single_True:
  "k < n \<Longrightarrow> length (filter (\<lambda>b. b) ((replicate n False)[k := True])) = 1"
  by (simp add: upd_conv_take_nth_drop filter_replicate_False)

lemma rovingAt_tabStops: "rovingAt es idx \<Longrightarrow> tabStops es = 1"
  by (cases idx) (auto simp add: rovingAt_def tabStops_stops count_single_True)

lemma no_stops_conv: "tabStops es = 0 \<longleftrightarrow> stops es = replicate (length es) False"
proof
  assume "tabStops es = 0"
  then have "\<forall>b \<in> set (stops es). \<not> b"
    by (auto simp add: tabStops_stops filter_empty_conv)
  then have "\<forall>i < length (stops es). stops es ! i = False"
    using nth_mem by blast
  then show "stops es = replicate (length es) False"
    by (intro nth_equalityI) simp_all
next
  assume "stops es = replicate (length es) False"
  then show "tabStops es = 0"
    by (simp add: tabStops_stops filter_replicate_False)
qed

lemma replicate_False_update: "(replicate n False)[k := False] = replicate n False"
  by (cases "k < n") (simp_all add: list_update_same_conv list_update_beyond)

text \<open>The carousel keeps the tab stop on the current slide.\<close>

lemma getAttribute_setupSlide:
  "getAttribute ''tabindex'' (setupSlide n index slide) = Some (if index = 0 then ''0'' else ''-1'')"
  by (simp add: setupSlide_def Let_def getAttribute_def setAttribute_def update_conv'
      classList_add_def)

lemma length_setupSlides [simp]: "length (setupSlides n index xs) = length xs"
  by (induction xs arbitrary: index) simp_all

lemma stops_setupSlides_rest:
  "stops (setupSlides n (Suc index) xs) = replicate (length xs) False"
proof (induction xs arbitrary: index)
  case Nil
  show ?case by (simp add: stops_def)
next
  case (Cons x xs)
  have "stops (setupSlides n (Suc (Suc index)) xs) = replicate (length xs) False"
    by (rule Cons.IH)
  then show ?case
    by (simp add: stops_def getAttribute_setupSlide)
qed

lemma newAccessibleCarousel_roving:
  assumes "found \<noteq> []"
  shows "rovingAt (slides (newAccessibleCarousel found opts w))
           (currentSlide (newAccessibleCarousel found opts w))"
proof -
  obtain x xs where f: "found = x # xs" using assms by (cases found) auto
  have "stops (setupSlides (length found) 0 found) = True # replicate (length xs) False"
    using stops_setupSlides_rest [of "length found" 0 xs]
    by (simp add: f stops_def getAttribute_setupSlide)
  then show ?thesis
    by (simp add: newAccessibleCarousel_def rovingAt_def f)
qed

lemma goToSlide_roving:
  assumes "rovingAt (slides c) (currentSlide c)"
  shows "rovingAt (slides (fst (state_of (goToSlide (Num i) (c, w)))))
           (currentSlide (fst (state_of (goToSlide (Num i) (c, w)))))"
proof -
  obtain k where k: "currentSlide c = Num k" "0 \<le> k" "k < int (length (slides c))"
      "stops (slides c) = (replicate (length (slides c)) False)[nat k := True]"
    using assms by (cases "currentSlide c") (auto simp add: rovingAt_def)
  show ?thesis
  proof (cases "0 \<le> i \<and> i < int (length (slides c)) \<and> i \<noteq> k")
    case False
    then have "goToSlide (Num i) (c, w) = Ok (c, w)"
      using k(1) by (auto simp add: goToSlide_def)
    then show ?thesis using assms by simp
  next
    case True
    then have r: "0 \<le> i" "i < int (length (slides c))" and ne: "i \<noteq> k" by simp_all
    have "stops (slides (fst (state_of (goToSlide (Num i) (c, w)))))
        = (replicate (length (slides c)) False)[nat i := True]"
      using goToSlide_valid(3) [OF r k(1,2,3), of w] ne k(4) by (simp add: replicate_False_update)
    then show ?thesis
      using goToSlide_valid(1,2) [OF r k(1,2,3), of w] r by (simp add: rovingAt_def)
  qed
qed

lemma nextSlide_roving:
  assumes "rovingAt (slides c) (currentSlide c)"
  shows "rovingAt (slides (fst (state_of (nextSlide (c, w)))))
           (currentSlide (fst (state_of (nextSlide (c, w)))))"
proof -
  obtain k where k: "currentSlide c = Num k" "0 \<le> k" "k < int (length (slides c))"
    using assms by (cases "currentSlide c") (auto simp add: rovingAt_def)
  show ?thesis
    using goToSlide_roving [OF assms] by (simp add: nextSlide_index [OF k])
qed

lemma previousSlide_roving:
  assumes "rovingAt (slides c) (currentSlide c)"
  shows "rovingAt (slides (fst (state_of (previousSlide (c, w)))))
           (currentSlide (fst (state_of (previousSlide (c, w)))))"
proof -
  obtain k where k: "currentSlide c = Num k" "0 \<le> k" "k < int (length (slides c))"
    using assms by (cases "currentSlide c") (auto simp add: rovingAt_def)
  show ?thesis
    using goToSlide_roving [OF assms] by (simp add: previousSlide_index [OF k])
qed

text \<open>The dropdown starts with no tab stop; a focus movement gives it exactly one.\<close>

lemma stops_setupMenuItems: "stops (map setupMenuItem found) = replicate (length found) False"
  by (induction found)
    (simp_all add: stops_def setupMenuItem_def getAttribute_def setAttribute_def update_conv')

lemma newAccessibleDropdown_no_stops:
  assumes "newAccessibleDropdown trig getElementById nextElementSibling found rnd opts = Ok d"
  shows "menuItems d = map setupMenuItem found" and "currentIndex d = Num (- 1)"
    and "tabStops (menuItems d) = 0"
proof -
  show m: "menuItems d = map setupMenuItem found"
    using assms
    by (auto simp add: newAccessibleDropdown_def setupAccessibility_def setupEventListeners_def
        setupStructure_def Let_def split: option.splits if_splits)
  show "currentIndex d = Num (- 1)"
    using assms
    by (auto simp add: newAccessibleDropdown_def setupAccessibility_def setupEventListeners_def
        setupStructure_def Let_def split: option.splits if_splits)
  show "tabStops (menuItems d) = 0"
    by (simp add: no_stops_conv m stops_setupMenuItems)
qed

lemma focusItem_roving:
  assumes "tabStopsAgree d" "0 \<le> i" "i < int (length (menuItems d))"
  shows "is_ok (focusItem (Num i) d)"
    and "currentIndex (state_of (focusItem (Num i) d)) = Num i"
    and "rovingAt (menuItems (state_of (focusItem (Num i) d))) (Num i)"
proof -
  let ?R = "replicate (length (menuItems d)) False"
  have "\<exists>k. currentIndex d = Num k \<and> k < int (length (menuItems d))
      \<and> (if 0 \<le> k then (stops (menuItems d))[nat k := False] else stops (menuItems d)) = ?R"
  proof (cases "currentIndex d = Num (- 1)")
    case True
    then have "stops (menuItems d) = ?R"
      using assms(1) by (simp add: tabStopsAgree_def no_stops_conv)
    then show ?thesis using True assms(2,3) by simp
  next
    case False
    then have rv: "rovingAt (menuItems d) (currentIndex d)"
      using assms(1) by (simp add: tabStopsAgree_def)
    then obtain k where k: "currentIndex d = Num k" "0 \<le> k" "k < int (length (menuItems d))"
        "stops (menuItems d) = ?R[nat k := True]"
      by (cases "currentIndex d") (auto simp add: rovingAt_def)
    then show ?thesis by (simp add: replicate_False_update)
  qed
  then obtain k where k: "currentIndex d = Num k" "k < int (length (menuItems d))"
      "(if 0 \<le> k then (stops (menuItems d))[nat k := False] else stops (menuItems d)) = ?R"
    by blast
  show "is_ok (focusItem (Num i) d)"
    by (rule focusItem_valid(1) [OF assms(2,3) k(1,2)])
  show "currentIndex (state_of (focusItem (Num i) d)) = Num i"
    by (rule focusItem_valid(2) [OF assms(2,3) k(1,2)])
  have "stops (menuItems (state_of (focusItem (Num i) d))) = ?R[nat i := True]"
    using focusItem_valid(4) [OF assms(2,3) k(1,2)] k(3) by simp
  then show "rovingAt (menuItems (state_of (focusItem (Num i) d))) (Num i)"
    using focusItem_valid(3) [OF assms(2,3) k(1,2)] assms(2,3) by (simp add: rovingAt_def)
qed

lemma tabStopsAgree_index:
  assumes "tabStopsAgree d"
  shows "\<exists>k. currentIndex d = Num k \<and> - 1 \<le> k \<and> k < int (length (menuItems d))"
proof (cases "currentIndex d = Num (- 1)")
  case True
  then show ?thesis by simp
next
  case False
  then have "rovingAt (menuItems d) (currentIndex d)"
    using assms by (simp add: tabStopsAgree_def)
  then show ?thesis
    by (cases "currentIndex d") (auto simp add: rovingAt_def)
qed

lemma js_rem_previous:
  assumes "- 1 \<le> k" "k < n" "0 < n"
  shows "\<exists>r. js_rem (Num (k - 1 + n)) (Num n) = Num r \<and> 0 \<le> r \<and> r < n"
proof (cases "0 \<le> k - 1 + n")
  case True
  then show ?thesis using assms(3) by (simp del: js_rem.simps add: js_rem_nonneg)
next
  case False
  then have "k = - 1" "n = 1" using assms by linarith+
  then show ?thesis by simp
qed


lemma rovingAt_agree:
  "rovingAt (menuItems d) (currentIndex d) \<Longrightarrow> tabStopsAgree d"
  by (cases "currentIndex d") (auto simp add: tabStopsAgree_def rovingAt_def)

lemma focus_moves_roving:
  assumes "tabStopsAgree d" "menuItems d \<noteq> []"
  shows "is_ok (focusFirstItem d)
       \<and> rovingAt (menuItems (state_of (focusFirstItem d))) (currentIndex (state_of (focusFirstItem d)))"
    and "is_ok (focusLastItem d)
       \<and> rovingAt (menuItems (state_of (focusLastItem d))) (currentIndex (state_of (focusLastItem d)))"
    and "is_ok (focusNextItem d)
       \<and> rovingAt (menuItems (state_of (focusNextItem d))) (currentIndex (state_of (focusNextItem d)))"
    and "is_ok (focusPreviousItem d)
       \<and> rovingAt (menuItems (state_of (focusPreviousItem d))) (currentIndex (state_of (focusPreviousItem d)))"
proof -
  let ?n = "int (length (menuItems d))"
  have n: "0 < ?n" using assms(2) by simp
  obtain k where k: "currentIndex d = Num k" "- 1 \<le> k" "k < ?n"
    using tabStopsAgree_index [OF assms(1)] by blast
  have any: "is_ok (focusItem (Num i) d)
       \<and> rovingAt (menuItems (state_of (focusItem (Num i) d))) (currentIndex (state_of (focusItem (Num i) d)))"
    if "0 \<le> i" "i < ?n" for i
    using focusItem_roving [OF assms(1) that] by simp
  show "is_ok (focusFirstItem d)
       \<and> rovingAt (menuItems (state_of (focusFirstItem d))) (currentIndex (state_of (focusFirstItem d)))"
    using any [of 0] n by (simp add: focusFirstItem_def)
  show "is_ok (focusLastItem d)
       \<and> rovingAt (menuItems (state_of (focusLastItem d))) (currentIndex (state_of (focusLastItem d)))"
    using any [of "?n - 1"] n by (simp add: focusLastItem_def)
  have nx: "js_rem (js_add (currentIndex d) (Num 1)) (Num ?n) = Num ((k + 1) mod ?n)"
    using k(1,2) n by (simp del: js_rem.simps add: js_rem_nonneg)
  show "is_ok (focusNextItem d)
       \<and> rovingAt (menuItems (state_of (focusNextItem d))) (currentIndex (state_of (focusNextItem d)))"
    using any [of "(k + 1) mod ?n"] n by (simp add: focusNextItem_def nx)
  obtain r where r: "js_rem (Num (k - 1 + ?n)) (Num ?n) = Num r" "0 \<le> r" "r < ?n"
    using js_rem_previous [OF k(2,3) n] by blast
  have pv: "js_rem (js_add (js_sub (currentIndex d) (Num 1)) (Num ?n)) (Num ?n) = Num r"
    using r(1) by (simp add: k(1))
  show "is_ok (focusPreviousItem d)
       \<and> rovingAt (menuItems (state_of (focusPreviousItem d))) (currentIndex (state_of (focusPreviousItem d)))"
    using any [OF r(2,3)] by (simp add: focusPreviousItem_def pv)
qed

lemma newAccessibleCarousel_dots: "dotsMatchSlides (newAccessibleCarousel found opts w)"
proof -
  have "length (createDots index found) = length found" for index
    by (induction found arbitrary: index) simp_all
  then show ?thesis
    by (simp add: dotsMatchSlides_def newAccessibleCarousel_def)
qed

lemma exampleDropdown_ok: "is_ok exampleDropdown"
  by (simp add: exampleDropdown_def newAccessibleDropdown_def setupAccessibility_def
      setupEventListeners_def setupStructure_def Let_def getAttribute_def createElement_def)

lemma is_ok_Ok: "is_ok r \<Longrightarrow> r = Ok (state_of r)"
  by (cases r) simp_all

lemma exampleDropdown_Ok: "exampleDropdown = Ok (state_of exampleDropdown)"
  using exampleDropdown_ok by (rule is_ok_Ok)

lemma exampleDropdown_facts:
  "length (menuItems (state_of exampleDropdown)) = 3"
  "currentIndex (state_of exampleDropdown) = Num (- 1)"
  "tabStops (menuItems (state_of exampleDropdown)) = 0"
  using newAccessibleDropdown_no_stops
    [OF exampleDropdown_Ok [unfolded exampleDropdown_def], folded exampleDropdown_def]
  by simp_all

text \<open>
  C6 (as the code has it). A carousel constructed over a non-empty sequence of slides
  has exactly one slide with \<open>tabindex="0"\<close>, the current one, and \<open>goToSlide\<close>
  (at any integer index), \<open>nextSlide\<close> and \<open>previousSlide\<close> keep it so, also when
  the call throws while updating the dots. A dropdown is constructed with every item
  at \<open>tabindex="-1"\<close> and \<open>currentIndex = -1\<close>: no item carries the tab stop until
  one is focused. From a dropdown whose tab stops agree with \<open>currentIndex\<close>,
  \<open>focusItem\<close> at a valid index and, over a non-empty item list, \<open>focusFirstItem\<close>,
  \<open>focusLastItem\<close>, \<open>focusNextItem\<close> and \<open>focusPreviousItem\<close> return normally and
  leave exactly one item with \<open>tabindex="0"\<close>, the new current one.
\<close>

theorem roving_tab_stop:
  "(found \<noteq> [] \<longrightarrow>
       tabStops (slides (newAccessibleCarousel found opts w)) = 1
     \<and> rovingAt (slides (newAccessibleCarousel found opts w))
         (currentSlide (newAccessibleCarousel found opts w)))
   \<and> (rovingAt (slides c) (currentSlide c) \<longrightarrow>
       tabStops (slides c) = 1
     \<and> rovingAt (slides (fst (state_of (goToSlide (Num i) (c, w)))))
         (currentSlide (fst (state_of (goToSlide (Num i) (c, w)))))
     \<and> rovingAt (slides (fst (state_of (nextSlide (c, w)))))
         (currentSlide (fst (state_of (nextSlide (c, w)))))
     \<and> rovingAt (slides (fst (state_of (previousSlide (c, w)))))
         (currentSlide (fst (state_of (previousSlide (c, w))))))
   \<and> (newAccessibleDropdown trig getElementById nextElementSibling menuFound rnd dopts = Ok d0 \<longrightarrow>
       tabStops (menuItems d0) = 0 \<and> currentIndex d0 = Num (- 1) \<and> tabStopsAgree d0)
   \<and> (tabStopsAgree d \<and> 0 \<le> j \<and> j < int (length (menuItems d)) \<longrightarrow>
       is_ok (focusItem (Num j) d)
     \<and> currentIndex (state_of (focusItem (Num j) d)) = Num j
     \<and> tabStops (menuItems (state_of (focusItem (Num j) d))) = 1
     \<and> tabStopsAgree (state_of (focusItem (Num j) d)))
   \<and> (tabStopsAgree d \<and> menuItems d \<noteq> [] \<longrightarrow>
       is_ok (focusFirstItem d)
     \<and> tabStops (menuItems (state_of (focusFirstItem d))) = 1
     \<and> tabStopsAgree (state_of (focusFirstItem d))
     \<and> is_ok (focusLastItem d)
     \<and> tabStops (menuItems (state_of (focusLastItem d))) = 1
     \<and> tabStopsAgree (state_of (focusLastItem d))
     \<and> is_ok (focusNextItem d)
     \<and> tabStops (menuItems (state_of (focusNextItem d))) = 1
     \<and> tabStopsAgree (state_of (focusNextItem d))
     \<and> is_ok (focusPreviousItem d)
     \<and> tabStops (menuItems (state_of (focusPreviousItem d))) = 1
     \<and> tabStopsAgree (state_of (focusPreviousItem d)))"
proof (intro conjI impI)
  assume "found \<noteq> []"
  then show "rovingAt (slides (newAccessibleCarousel found opts w))
         (currentSlide (newAccessibleCarousel found opts w))"
    by (rule newAccessibleCarousel_roving)
  then show "tabStops (slides (newAccessibleCarousel found opts w)) = 1"
    by (rule rovingAt_tabStops)
next
  assume rv: "rovingAt (slides c) (currentSlide c)"
  show "tabStops (slides c) = 1" using rv by (rule rovingAt_tabStops)
  show "rovingAt (slides (fst (state_of (goToSlide (Num i) (c, w)))))
         (currentSlide (fst (state_of (goToSlide (Num i) (c, w)))))"
    using rv by (rule goToSlide_roving)
  show "rovingAt (slides (fst (state_of (nextSlide (c, w)))))
         (currentSlide (fst (state_of (nextSlide (c, w)))))"
    using rv by (rule nextSlide_roving)
  show "rovingAt (slides (fst (state_of (previousSlide (c, w)))))
         (currentSlide (fst (state_of (previousSlide (c, w)))))"
    using rv by (rule previousSlide_roving)
next
  assume ok: "newAccessibleDropdown trig getElementById nextElementSibling menuFound rnd dopts = Ok d0"
  show "tabStops (menuItems d0) = 0" "currentIndex d0 = Num (- 1)"
    using newAccessibleDropdown_no_stops [OF ok] by simp_all
  then show "tabStopsAgree d0" by (simp add: tabStopsAgree_def)
next
  assume h: "tabStopsAgree d \<and> 0 \<le> j \<and> j < int (length (menuItems d))"
  then have a: "tabStopsAgree d" and r: "0 \<le> j" "j < int (length (menuItems d))" by simp_all
  show "is_ok (focusItem (Num j) d)" by (rule focusItem_roving(1) [OF a r])
  show c: "currentIndex (state_of (focusItem (Num j) d)) = Num j"
    by (rule focusItem_roving(2) [OF a r])
  show "tabStops (menuItems (state_of (focusItem (Num j) d))) = 1"
    using focusItem_roving(3) [OF a r] by (rule rovingAt_tabStops)
  show "tabStopsAgree (state_of (focusItem (Num j) d))"
    using focusItem_roving(3) [OF a r] c by (simp add: rovingAt_agree)
next
  assume h: "tabStopsAgree d \<and> menuItems d \<noteq> []"
  then have a: "tabStopsAgree d" and ne: "menuItems d \<noteq> []" by simp_all
  note m = focus_moves_roving [OF a ne]
  show "is_ok (focusFirstItem d)" using m(1) by simp
  show "tabStops (menuItems (state_of (focusFirstItem d))) = 1" using m(1) rovingAt_tabStops by blast
  show "tabStopsAgree (state_of (focusFirstItem d))" using m(1) rovingAt_agree by blast
  show "is_ok (focusLastItem d)" using m(2) by simp
  show "tabStops (menuItems (state_of (focusLastItem d))) = 1" using m(2) rovingAt_tabStops by blast
  show "tabStopsAgree (state_of (focusLastItem d))" using m(2) rovingAt_agree by blast
  show "is_ok (focusNextItem d)" using m(3) by simp
  show "tabStops (menuItems (state_of (focusNextItem d))) = 1" using m(3) rovingAt_tabStops by blast
  show "tabStopsAgree (state_of (focusNextItem d))" using m(3) rovingAt_agree by blast
  show "is_ok (focusPreviousItem d)" using m(4) by simp
  show "tabStops (menuItems (state_of (focusPreviousItem d))) = 1" using m(4) rovingAt_tabStops by blast
  show "tabStopsAgree (state_of (focusPreviousItem d))" using m(4) rovingAt_agree by blast
qed


theorem roving_tab_stop_witness:
  "tabStops (slides exampleCarousel) = 1
   \<and> tabStops (slides (fst (state_of (nextSlide (exampleCarousel, exampleWindow))))) = 1
   \<and> tabStops (menuItems (state_of exampleDropdown)) = 0
   \<and> tabStops (menuItems (state_of (focusItem (Num 1) (state_of exampleDropdown)))) = 1
   \<and> tabStops (menuItems (state_of (focusNextItem (state_of exampleDropdown)))) = 1"
proof -
  have ne: "threeSlides \<noteq> []" by (simp add: threeSlides_def)
  have car: "tabStops (slides exampleCarousel) = 1"
    and rv: "rovingAt (slides exampleCarousel) (currentSlide exampleCarousel)"
    using roving_tab_stop [where found = threeSlides and opts = defaultCarouselOptions
        and w = exampleWindow] ne
    by (simp_all add: exampleCarousel_def)
  have rv2: "rovingAt (slides (fst (state_of (nextSlide (exampleCarousel, exampleWindow)))))
      (currentSlide (fst (state_of (nextSlide (exampleCarousel, exampleWindow)))))"
    using roving_tab_stop [where c = exampleCarousel and w = exampleWindow] rv by blast
  have car2: "tabStops (slides (fst (state_of (nextSlide (exampleCarousel, exampleWindow))))) = 1"
    using roving_tab_stop
      [where c = "fst (state_of (nextSlide (exampleCarousel, exampleWindow)))"] rv2 by blast
  have dd: "tabStops (menuItems (state_of exampleDropdown)) = 0"
    and agree: "tabStopsAgree (state_of exampleDropdown)"
    using roving_tab_stop [where d0 = "state_of exampleDropdown"
        and trig = "createElement ''button''" and getElementById = "\<lambda>menuId. None"
        and nextElementSibling = "Some (createElement ''ul'')"
        and menuFound = "[createElement ''a'', createElement ''a'', createElement ''button'']"
        and rnd = "''k3x9q2m1z''" and dopts = defaultDropdownOptions]
      exampleDropdown_Ok [unfolded exampleDropdown_def, folded exampleDropdown_def]
    by (simp_all add: exampleDropdown_def [symmetric])
  have len: "(1::int) < int (length (menuItems (state_of exampleDropdown)))"
    "menuItems (state_of exampleDropdown) \<noteq> []"
    using exampleDropdown_facts(1) by auto
  have foc: "tabStops (menuItems (state_of (focusItem (Num 1) (state_of exampleDropdown)))) = 1"
    using roving_tab_stop [where d = "state_of exampleDropdown" and j = 1] agree len by simp
  have nxt: "tabStops (menuItems (state_of (focusNextItem (state_of exampleDropdown)))) = 1"
    using roving_tab_stop [where d = "state_of exampleDropdown"] agree len by blast
  show ?thesis using car car2 dd foc nxt by simp
qed

text \<open>The example dropdown, constructed over three items: none of them carries
  \<open>tabindex="0"\<close>.\<close>

theorem dropdown_starts_without_tab_stop:
  "is_ok exampleDropdown
   \<and> length (menuItems (state_of exampleDropdown)) = 3
   \<and> tabStops (menuItems (state_of exampleDropdown)) = 0
   \<and> tabStops (menuItems (state_of exampleDropdown)) \<noteq> 1"
  using exampleDropdown_ok exampleDropdown_facts by simp

text \<open>What the statement above leaves open: \<open>close\<close> resets \<open>currentIndex\<close> to
  \<open>-1\<close> and leaves the \<open>tabindex\<close> of the item that had the focus. After opening
  the example dropdown, moving to the next item, closing and opening again, two items
  carry \<open>tabindex="0"\<close>.\<close>

lemma reopened_dropdown_two_tab_stops:
  "tabStops (menuItems (fst (state_of
     (bind_result (bind_result (bind_result
        (dropdown_open (state_of exampleDropdown, exampleWindow))
        (\<lambda>(d, w). with_window w (focusNextItem d)))
        dropdown_close)
        dropdown_open)))) = 2"
  by code_simp

text \<open>
  C7. For a dropdown with \<open>n\<close> items and a carousel with \<open>n\<close> slides (and dots as
  the constructor leaves them), at a valid current index \<open>i\<close> (so \<open>n \<ge> 1\<close>):
  \<open>focusNextItem\<close> and \<open>nextSlide\<close> return normally with the current index
  \<open>(i + 1) mod n\<close>, \<open>focusPreviousItem\<close> and \<open>previousSlide\<close> with
  \<open>(i - 1 + n) mod n\<close>, and \<open>n\<close> calls of \<open>focusNextItem\<close>, or of \<open>nextSlide\<close>,
  return normally with the current index \<open>i\<close> again.
\<close>

theorem focusNext_cycles:
  assumes "currentIndex d = Num i" "0 \<le> i" "i < int (length (menuItems d))"
    and "currentSlide c = Num j" "0 \<le> j" "j < int (length (slides c))" "dotsMatchSlides c"
  shows "is_ok (focusNextItem d)
       \<and> currentIndex (state_of (focusNextItem d)) = Num ((i + 1) mod int (length (menuItems d)))
       \<and> is_ok (focusPreviousItem d)
       \<and> currentIndex (state_of (focusPreviousItem d))
           = Num ((i - 1 + int (length (menuItems d))) mod int (length (menuItems d)))
       \<and> is_ok (iterate (length (menuItems d)) focusNextItem d)
       \<and> currentIndex (state_of (iterate (length (menuItems d)) focusNextItem d)) = Num i
       \<and> is_ok (nextSlide (c, w))
       \<and> currentSlide (fst (state_of (nextSlide (c, w)))) = Num ((j + 1) mod int (length (slides c)))
       \<and> is_ok (previousSlide (c, w))
       \<and> currentSlide (fst (state_of (previousSlide (c, w))))
           = Num ((j - 1 + int (length (slides c))) mod int (length (slides c)))
       \<and> is_ok (iterate (length (slides c)) nextSlide (c, w))
       \<and> currentSlide (fst (state_of (iterate (length (slides c)) nextSlide (c, w)))) = Num j"
proof -
  let ?n = "int (length (menuItems d))"
  let ?m = "int (length (slides c))"
  have m: "0 < ?m" using assms(5,6) by linarith
  have wrap: "(i + ?n) mod ?n = i" "(j + ?m) mod ?m = j"
    using assms(2,3,5,6) by simp_all
  have rn: "0 \<le> (j + 1) mod ?m" "(j + 1) mod ?m < ?m"
    and rp: "0 \<le> (j - 1 + ?m) mod ?m" "(j - 1 + ?m) mod ?m < ?m"
    using m by simp_all
  note dn = focusNextItem_valid [OF assms(1,2,3)]
  note dp = focusPreviousItem_valid [OF assms(1,2,3)]
  note di = iterate_focusNextItem [OF assms(1,2,3), of "length (menuItems d)"]
  note cn = goToSlide_valid [OF rn assms(4,5,6), of w]
  note cp = goToSlide_valid [OF rp assms(4,5,6), of w]
  note ci = iterate_nextSlide [OF assms(4,5,6,7), of "length (slides c)" w]
  show ?thesis
    using dn(1,2) dp di cn(1) cn(4) [OF assms(7)] cp(1) cp(4) [OF assms(7)] ci wrap
    by (simp add: nextSlide_index [OF assms(4,5,6)] previousSlide_index [OF assms(4,5,6)])
qed

theorem focusNext_cycles_witness:
  "currentIndex (state_of (iterate 3 focusNextItem (state_of (focusItem (Num 1) (state_of exampleDropdown)))))
     = Num 1
   \<and> currentIndex (state_of (focusNextItem (state_of (focusItem (Num 1) (state_of exampleDropdown)))))
     = Num 2
   \<and> currentSlide (fst (state_of (iterate 3 nextSlide (exampleCarousel, exampleWindow)))) = Num 0
   \<and> currentSlide (fst (state_of (previousSlide (exampleCarousel, exampleWindow)))) = Num 2"
proof -
  let ?d = "state_of (focusItem (Num 1) (state_of exampleDropdown))"
  have dd: "currentIndex (state_of exampleDropdown) = Num (- 1)"
    "length (menuItems (state_of exampleDropdown)) = 3"
    using exampleDropdown_facts by simp_all
  have d: "currentIndex ?d = Num 1" "length (menuItems ?d) = 3"
    using focusItem_valid(2,3) [of 1 "state_of exampleDropdown" "- 1"] dd by simp_all
  have c: "currentSlide exampleCarousel = Num 0" "length (slides exampleCarousel) = 3"
    by (simp_all add: exampleCarousel_def newAccessibleCarousel_def threeSlides_def)
  have dm: "dotsMatchSlides exampleCarousel"
    by (simp add: exampleCarousel_def newAccessibleCarousel_dots)
  show ?thesis
    using focusNext_cycles [of ?d 1 exampleCarousel 0 exampleWindow] d c dm
    by simp
qed

end
